theory Spec2Isabelle
  imports Main "HOL-Library.Monad_Syntax" "HOL-Library.Word"
begin

section \<open>The result contract of libcred.hpp\<close>

text \<open>
  Modelled from the spec: the header \<^verbatim>\<open>libcred.hpp\<close> is not among the sources. The spec
  gives the operation result as an enumeration of success, non-fatal failure and error,
  and a credential as an (account, secret) pair; the source uses the three enumerators
  below and builds a credential with \<^verbatim>\<open>Credentials(account, password)\<close>.
\<close>

datatype LIBCRED_RESULT = SUCCESS | FAIL_ERROR | FAIL_NONFATAL

type_synonym Credentials = "string \<times> string"

text \<open>Modelled from the spec: the default-constructed credential, a pair of empty strings.\<close>

definition Credentials_default :: Credentials where
  "Credentials_default = ([], [])"

section \<open>Core Foundation objects\<close>

text \<open>
  A \<^verbatim>\<open>std::string\<close> is a list of bytes. \<^verbatim>\<open>c_str()\<close> is the buffer followed by its
  terminating NUL; a function that takes a C string reads it up to the first NUL, a
  function that takes a pointer and a length reads that many bytes.
\<close>

definition NUL :: char where
  "NUL = CHR 0x00"

definition c_str :: "string \<Rightarrow> string" where
  "c_str s = s @ [NUL]"

definition cstring :: "string \<Rightarrow> string" where
  "cstring p = takeWhile (\<lambda>c. c \<noteq> NUL) p"

text \<open>\<^verbatim>\<open>std::string(const char*)\<close> and \<^verbatim>\<open>std::string(const char*, size_t)\<close>.\<close>

definition std_string :: "string \<Rightarrow> string" where
  "std_string p = cstring p"

definition std_string_n :: "string \<Rightarrow> nat \<Rightarrow> string" where
  "std_string_n p n = take n p"

type_synonym OSStatus = int

definition errSecSuccess :: OSStatus where
  "errSecSuccess = 0"

definition errSecItemNotFound :: OSStatus where
  "errSecItemNotFound = - 25300"

definition errSecDuplicateItem :: OSStatus where
  "errSecDuplicateItem = - 25299"

definition errSecAuthFailed :: OSStatus where
  "errSecAuthFailed = - 25293"

text \<open>
  The dictionary keys the source uses. \<^verbatim>\<open>CFSTR("v_Data")\<close>, which
  \<^verbatim>\<open>getCredentialsForItem\<close> reads, is the value of \<^verbatim>\<open>kSecValueData\<close>.
\<close>

datatype cfkey =
    kSecClass | kSecAttrAccount | kSecAttrServer | kSecAttrService
  | kSecMatchLimit | kSecReturnData | kSecReturnAttributes | kSecReturnRef
  | kSecValueData

text \<open>
  The objects behind a \<^verbatim>\<open>CFTypeRef\<close>: the framework's constants, strings (their
  contents as UTF-8 bytes), data buffers, dictionaries in insertion order and arrays.
\<close>

datatype cftype =
    kSecClassInternetPassword | kSecClassGenericPassword
  | kSecMatchLimitOne | kSecMatchLimitAll
  | kCFBooleanTrue
  | CFString string
  | CFData string
  | CFDictionary "(cfkey \<times> cftype) list"
  | CFArray "cftype list"

type_synonym cfdict = "(cfkey \<times> cftype) list"

text \<open>
  \<^verbatim>\<open>int resultCount = CFArrayGetCount(resultArray)\<close>: a \<^verbatim>\<open>CFIndex\<close> (64 bits, signed, here
  the length of an array) converted to \<^verbatim>\<open>int\<close>, which keeps its low 32 bits, read as a
  signed number.
\<close>

definition int_of_CFIndex :: "nat \<Rightarrow> int" where
  "int_of_CFIndex n = sint (word_of_nat n :: 32 word)"

section \<open>The secure backend\<close>

text \<open>
  The operating system behind the adapter, as a capability: the four keychain calls over
  a store of type \<open>'k\<close>, each with its \<^verbatim>\<open>OSStatus\<close>, the translation of a status to a
  message (\<open>None\<close> is NULL), the C strings that \<^verbatim>\<open>CFStringCreateWithCString\<close> accepts in the
  encoding the source names (\<^verbatim>\<open>kCFStringEncodingUTF8\<close>), and the string conversions whose
  outcome depends on how the system stores a string.
\<close>

record 'k SecureBackend =
  itemAdd :: "cfdict \<Rightarrow> 'k \<Rightarrow> OSStatus \<times> 'k"
  itemUpdate :: "cfdict \<Rightarrow> cfdict \<Rightarrow> 'k \<Rightarrow> OSStatus \<times> 'k"
  itemCopyMatching :: "cfdict \<Rightarrow> 'k \<Rightarrow> OSStatus \<times> cftype option \<times> 'k"
  itemDelete :: "cfdict \<Rightarrow> 'k \<Rightarrow> OSStatus \<times> 'k"
  copyErrorMessageString :: "OSStatus \<Rightarrow> string option"
  validCString :: "string \<Rightarrow> bool"
  getCStringPtr :: "string \<Rightarrow> string option"
  getLength :: "string \<Rightarrow> nat"
  getCString :: "string \<Rightarrow> nat \<Rightarrow> string option"
  createFromExternalRepresentation :: "string \<Rightarrow> string option"

text \<open>The requests that reach the backend, in the order they are made.\<close>

datatype sec_call =
    Add cfdict
  | Update cfdict cfdict
  | CopyMatching cfdict
  | Delete cfdict

text \<open>
  The state a call runs in: the store, the references the library owns (each object it
  created or copied and has not released yet), the next fresh reference, and the log of
  the requests made to the backend.
\<close>

record 'k world =
  keychain :: 'k
  owned :: "nat list"
  next_ref :: nat
  calls :: "sec_call list"

text \<open>
  A reference is a handle with the object behind it; a pointer that may be NULL is an
  optional reference, and \<open>target\<close> is the object it points to.
\<close>

type_synonym 'a ref = "nat \<times> 'a"

abbreviation obj :: "'a ref \<Rightarrow> 'a" where
  "obj r \<equiv> snd r"

abbreviation target :: "'a ref option \<Rightarrow> 'a option" where
  "target p \<equiv> map_option snd p"

text \<open>
  Create rule: the caller owns the new object. An abnormal end of the process (a NULL
  or an unowned reference passed to \<^verbatim>\<open>CFRelease\<close>, a NULL stored in a dictionary, a
  reference cast to a type the object does not have) is the value \<open>None\<close>.
\<close>

definition CFCreate :: "'a \<Rightarrow> 'k world \<Rightarrow> 'a ref \<times> 'k world" where
  "CFCreate v w =
     ((next_ref w, v), w\<lparr>owned := owned w @ [next_ref w], next_ref := Suc (next_ref w)\<rparr>)"

definition CFRelease :: "'a ref option \<Rightarrow> 'k world \<Rightarrow> 'k world option" where
  "CFRelease p w =
     (case p of
        None \<Rightarrow> None
      | Some r \<Rightarrow>
          (if fst r \<in> set (owned w) then Some (w\<lparr>owned := remove1 (fst r) (owned w)\<rparr>)
           else None))"

text \<open>
  \<^verbatim>\<open>CFStringCreateWithCString\<close> reads a C string and returns NULL when its bytes are not
  valid in the encoding; \<^verbatim>\<open>CFDataCreate\<close> reads a pointer and a length.
\<close>

definition CFStringCreateWithCString ::
  "'k SecureBackend \<Rightarrow> string \<Rightarrow> 'k world \<Rightarrow> cftype ref option \<times> 'k world" where
  "CFStringCreateWithCString B p w =
     (if validCString B (cstring p)
      then (let (r, w) = CFCreate (CFString (cstring p)) w in (Some r, w))
      else (None, w))"

definition CFDataCreate :: "string \<Rightarrow> nat \<Rightarrow> 'k world \<Rightarrow> cftype ref \<times> 'k world" where
  "CFDataCreate p n w = CFCreate (CFData (take n p)) w"

text \<open>
  \<^verbatim>\<open>CFDictionaryCreate\<close> and \<^verbatim>\<open>CFDictionaryAddValue\<close> retain each value they store: a NULL
  among the values ends the process. \<^verbatim>\<open>CFDictionaryAddValue\<close> adds the pair only if the
  key is not present yet.
\<close>

definition CFDictionaryCreate ::
  "cfkey list \<Rightarrow> cftype option list \<Rightarrow> nat \<Rightarrow> 'k world \<Rightarrow> (cfdict ref \<times> 'k world) option" where
  "CFDictionaryCreate keys vals n w =
     (case those (take n vals) of
        None \<Rightarrow> None
      | Some vs \<Rightarrow> Some (CFCreate (zip (take n keys) vs) w))"

definition CFDictionaryCreateMutable :: "'k world \<Rightarrow> cfdict ref \<times> 'k world" where
  "CFDictionaryCreateMutable w = CFCreate [] w"

definition CFDictionaryAddValue ::
  "cfdict ref \<Rightarrow> cfkey \<Rightarrow> cftype option \<Rightarrow> cfdict ref option" where
  "CFDictionaryAddValue d k v =
     (case v of
        None \<Rightarrow> None
      | Some x \<Rightarrow> Some (fst d, if k \<in> set (map fst (obj d)) then obj d else obj d @ [(k, x)]))"

definition CFDictionaryGetValue :: "cfdict \<Rightarrow> cfkey \<Rightarrow> cftype option" where
  "CFDictionaryGetValue d k = map_of d k"

definition CFArrayGetCount :: "cftype list \<Rightarrow> nat" where
  "CFArrayGetCount a = length a"

text \<open>The keychain calls as the library makes them: on the store, and logged.\<close>

definition SecItemAdd :: "'k SecureBackend \<Rightarrow> cfdict \<Rightarrow> 'k world \<Rightarrow> OSStatus \<times> 'k world" where
  "SecItemAdd B attributes w =
     (let (status, k) = itemAdd B attributes (keychain w)
      in (status, w\<lparr>keychain := k, calls := calls w @ [Add attributes]\<rparr>))"

definition SecItemUpdate ::
  "'k SecureBackend \<Rightarrow> cfdict \<Rightarrow> cfdict \<Rightarrow> 'k world \<Rightarrow> OSStatus \<times> 'k world" where
  "SecItemUpdate B query update w =
     (let (status, k) = itemUpdate B query update (keychain w)
      in (status, w\<lparr>keychain := k, calls := calls w @ [Update query update]\<rparr>))"

definition SecItemDelete :: "'k SecureBackend \<Rightarrow> cfdict \<Rightarrow> 'k world \<Rightarrow> OSStatus \<times> 'k world" where
  "SecItemDelete B query w =
     (let (status, k) = itemDelete B query (keychain w)
      in (status, w\<lparr>keychain := k, calls := calls w @ [Delete query]\<rparr>))"

text \<open>Copy rule: a result that is not NULL is owned by the caller.\<close>

definition SecItemCopyMatching ::
  "'k SecureBackend \<Rightarrow> cfdict \<Rightarrow> 'k world \<Rightarrow> OSStatus \<times> cftype ref option \<times> 'k world" where
  "SecItemCopyMatching B query w =
     (let (status, result, k) = itemCopyMatching B query (keychain w);
          w = w\<lparr>keychain := k, calls := calls w @ [CopyMatching query]\<rparr>
      in case result of
           None \<Rightarrow> (status, None, w)
         | Some v \<Rightarrow> (let (r, w) = CFCreate v w in (status, Some r, w)))"

definition SecCopyErrorMessageString ::
  "'k SecureBackend \<Rightarrow> OSStatus \<Rightarrow> 'k world \<Rightarrow> cftype ref option \<times> 'k world" where
  "SecCopyErrorMessageString B status w =
     (case copyErrorMessageString B status of
        None \<Rightarrow> (None, w)
      | Some message \<Rightarrow> (let (r, w) = CFCreate (CFString message) w in (Some r, w)))"

text \<open>
  \<^verbatim>\<open>CFStringCreateFromExternalRepresentation\<close> returns NULL when the bytes do not decode.
  \<^verbatim>\<open>CFStringGetCStringPtr\<close> answers NULL for a NULL string.
\<close>

definition CFStringCreateFromExternalRepresentation ::
  "'k SecureBackend \<Rightarrow> string \<Rightarrow> 'k world \<Rightarrow> cftype ref option \<times> 'k world" where
  "CFStringCreateFromExternalRepresentation B bytes w =
     (case createFromExternalRepresentation B bytes of
        None \<Rightarrow> (None, w)
      | Some text \<Rightarrow> (let (r, w) = CFCreate (CFString text) w in (Some r, w)))"

definition CFStringGetCStringPtr :: "'k SecureBackend \<Rightarrow> cftype option \<Rightarrow> string option" where
  "CFStringGetCStringPtr B cfstring =
     (case cfstring of
        Some (CFString s) \<Rightarrow> getCStringPtr B s
      | _ \<Rightarrow> None)"

section \<open>libcred_macos.cpp\<close>

text \<open>
  \<^verbatim>\<open>CFStringToStdString\<close>: the direct pointer if the system has one, else a copy into a
  buffer of twice the length plus one; an empty string if the copy fails. The argument
  is a pointer cast to \<^verbatim>\<open>CFStringRef\<close>; \<^verbatim>\<open>CFStringGetLength\<close> of NULL does not return.
\<close>

definition CFStringToStdString :: "'k SecureBackend \<Rightarrow> cftype option \<Rightarrow> string option" where
  "CFStringToStdString B cfstring =
     (case CFStringGetCStringPtr B cfstring of
        Some cstr \<Rightarrow> Some (std_string cstr)
      | None \<Rightarrow>
          (case cfstring of
             Some (CFString s) \<Rightarrow>
               (let len = getLength B s;
                    cstrPtrLen = len * 2 + 1;
                    result = getCString B s cstrPtrLen
                in Some (case result of Some cstrPtr \<Rightarrow> std_string cstrPtr | None \<Rightarrow> []))
           | _ \<Rightarrow> None))"

text \<open>
  \<^verbatim>\<open>errorStatusToString\<close>: the message of the status is copied, read through its C-string
  pointer if it has one, replaced by the generic string if not, and released. The source
  does not test the copied message: a NULL reaches \<^verbatim>\<open>CFRelease\<close>, which does not return.
\<close>

definition errorStatusToString ::
  "'k SecureBackend \<Rightarrow> OSStatus \<Rightarrow> 'k world \<Rightarrow> (string \<times> 'k world) option" where
  "errorStatusToString B status w = do {
     let (errorMessageString, w) = SecCopyErrorMessageString B status w;
     let errorCStringPtr = CFStringGetCStringPtr B (target errorMessageString);
     let errorStr = (case errorCStringPtr of
                       Some p \<Rightarrow> std_string p
                     | None \<Rightarrow> ''An unknown error occurred.'');
     w \<leftarrow> CFRelease errorMessageString w;
     Some (errorStr, w)
   }"

definition AddPassword ::
  "'k SecureBackend \<Rightarrow> string \<Rightarrow> string \<Rightarrow> string \<Rightarrow> string \<Rightarrow> 'k world
     \<Rightarrow> (LIBCRED_RESULT \<times> string \<times> 'k world) option" where
  "AddPassword B service account password error w = do {
     let (serviceRef, w) = CFStringCreateWithCString B (c_str service) w;
     let (accountRef, w) = CFStringCreateWithCString B (c_str account) w;
     let (passwordDataRef, w) = CFDataCreate (c_str password) (length password) w;
     let (attributes, w) = CFDictionaryCreateMutable w;
     attributes \<leftarrow> CFDictionaryAddValue attributes kSecClass (Some kSecClassInternetPassword);
     attributes \<leftarrow> CFDictionaryAddValue attributes kSecAttrServer (target serviceRef);
     attributes \<leftarrow> CFDictionaryAddValue attributes kSecAttrAccount (target accountRef);
     attributes \<leftarrow> CFDictionaryAddValue attributes kSecValueData (Some (obj passwordDataRef));
     let (status, w) = SecItemAdd B (obj attributes) w;
     if status \<noteq> errSecSuccess
     then do {
       (error, w) \<leftarrow> errorStatusToString B status w;
       Some (FAIL_ERROR, error, w)
     }
     else Some (SUCCESS, error, w)
   }"

definition set_password ::
  "'k SecureBackend \<Rightarrow> string \<Rightarrow> string \<Rightarrow> string \<Rightarrow> string \<Rightarrow> 'k world
     \<Rightarrow> (LIBCRED_RESULT \<times> string \<times> 'k world) option" where
  "set_password B service account password error w = do {
     let (cfAccount, w) = CFStringCreateWithCString B (c_str account) w;
     let (cfService, w) = CFStringCreateWithCString B (c_str service) w;
     let (cfNewPassword, w) = CFDataCreate (c_str password) (length password) w;
     let queryKeys = [kSecClass, kSecAttrAccount, kSecAttrServer];
     let queryValues = [Some kSecClassInternetPassword, target cfAccount, target cfService];
     (query, w) \<leftarrow> CFDictionaryCreate queryKeys queryValues 3 w;
     let updateKeys = [kSecValueData];
     let updateValues = [Some (obj cfNewPassword)];
     (update, w) \<leftarrow> CFDictionaryCreate updateKeys updateValues 1 w;
     let (status, w) = SecItemUpdate B (obj query) (obj update) w;
     if status = errSecItemNotFound
     then AddPassword B service account password error w
     else if status \<noteq> errSecSuccess
     then do {
       (error, w) \<leftarrow> errorStatusToString B status w;
       Some (FAIL_ERROR, error, w)
     }
     else do {
       w \<leftarrow> CFRelease cfAccount w;
       w \<leftarrow> CFRelease cfService w;
       w \<leftarrow> CFRelease (Some cfNewPassword) w;
       w \<leftarrow> CFRelease (Some query) w;
       w \<leftarrow> CFRelease (Some update) w;
       Some (SUCCESS, error, w)
     }
   }"

definition get_password ::
  "'k SecureBackend \<Rightarrow> string \<Rightarrow> string \<Rightarrow> string \<Rightarrow> string \<Rightarrow> 'k world
     \<Rightarrow> (LIBCRED_RESULT \<times> string \<times> string \<times> 'k world) option" where
  "get_password B service account password error w = do {
     let (cfAccount, w) = CFStringCreateWithCString B (c_str account) w;
     let (cfService, w) = CFStringCreateWithCString B (c_str service) w;
     let keys = [kSecClass, kSecAttrAccount, kSecAttrServer, kSecReturnData, kSecMatchLimit];
     let vals = [Some kSecClassInternetPassword, target cfAccount, target cfService,
                 Some kCFBooleanTrue, Some kSecMatchLimitOne];
     (query, w) \<leftarrow> CFDictionaryCreate keys vals 5 w;
     let (status, result, w) = SecItemCopyMatching B (obj query) w;
     w \<leftarrow> CFRelease cfAccount w;
     w \<leftarrow> CFRelease cfService w;
     w \<leftarrow> CFRelease (Some query) w;
     if status = errSecItemNotFound
     then Some (FAIL_NONFATAL, password, error, w)
     else if status \<noteq> errSecSuccess
     then do {
       (error, w) \<leftarrow> errorStatusToString B status w;
       Some (FAIL_ERROR, password, error, w)
     }
     else (case result of
             Some (h, CFData bytes) \<Rightarrow> do {
               let passwordData = Some (h, CFData bytes);
               let password = std_string_n bytes (length bytes);
               w \<leftarrow> CFRelease passwordData w;
               Some (SUCCESS, password, error, w)
             }
           | _ \<Rightarrow> None)
   }"

definition delete_password ::
  "'k SecureBackend \<Rightarrow> string \<Rightarrow> string \<Rightarrow> string \<Rightarrow> 'k world
     \<Rightarrow> (LIBCRED_RESULT \<times> string \<times> 'k world) option" where
  "delete_password B service account error w = do {
     let (cfAccount, w) = CFStringCreateWithCString B (c_str account) w;
     let (cfService, w) = CFStringCreateWithCString B (c_str service) w;
     let keys = [kSecClass, kSecAttrAccount, kSecAttrServer];
     let vals = [Some kSecClassInternetPassword, target cfAccount, target cfService];
     (query, w) \<leftarrow> CFDictionaryCreate keys vals 3 w;
     let (status, w) = SecItemDelete B (obj query) w;
     w \<leftarrow> CFRelease cfAccount w;
     w \<leftarrow> CFRelease cfService w;
     w \<leftarrow> CFRelease (Some query) w;
     if status = errSecItemNotFound
     then Some (FAIL_NONFATAL, error, w)
     else if status \<noteq> errSecSuccess
     then do {
       (error, w) \<leftarrow> errorStatusToString B status w;
       Some (FAIL_ERROR, error, w)
     }
     else Some (SUCCESS, error, w)
   }"

definition find_password ::
  "'k SecureBackend \<Rightarrow> string \<Rightarrow> string \<Rightarrow> string \<Rightarrow> 'k world
     \<Rightarrow> (LIBCRED_RESULT \<times> string \<times> string \<times> 'k world) option" where
  "find_password B service password error w = do {
     let (cfService, w) = CFStringCreateWithCString B (c_str service) w;
     let keys = [kSecClass, kSecAttrServer, kSecReturnData, kSecMatchLimit];
     let vals = [Some kSecClassInternetPassword, target cfService, Some kCFBooleanTrue,
                 Some kSecMatchLimitOne];
     (query, w) \<leftarrow> CFDictionaryCreate keys vals 4 w;
     let (status, result, w) = SecItemCopyMatching B (obj query) w;
     w \<leftarrow> CFRelease cfService w;
     w \<leftarrow> CFRelease (Some query) w;
     if status = errSecItemNotFound
     then Some (FAIL_NONFATAL, password, error, w)
     else if status \<noteq> errSecSuccess
     then do {
       (error, w) \<leftarrow> errorStatusToString B status w;
       Some (FAIL_ERROR, password, error, w)
     }
     else (case result of
             Some (h, CFData bytes) \<Rightarrow> do {
               let passwordData = Some (h, CFData bytes);
               let password = std_string_n bytes (length bytes);
               w \<leftarrow> CFRelease passwordData w;
               Some (SUCCESS, password, error, w)
             }
           | _ \<Rightarrow> None)
   }"

text \<open>
  \<^verbatim>\<open>getCredentialsForItem\<close>: the item's service and account are read from its attribute
  dictionary and stored in a fresh query; a missing one is a NULL stored in a dictionary.
  The block that decodes the secret runs only if the lookup reports success; otherwise
  the default-constructed \<^verbatim>\<open>cred\<close> is returned. In that block the result is cast to a
  dictionary and its data to \<^verbatim>\<open>CFDataRef\<close>, and the decoded string is not tested: a NULL
  reaches \<^verbatim>\<open>CFStringToStdString\<close>.
\<close>

definition getCredentialsForItem ::
  "'k SecureBackend \<Rightarrow> cfdict \<Rightarrow> 'k world \<Rightarrow> (Credentials \<times> 'k world) option" where
  "getCredentialsForItem B item w = do {
     let service = CFDictionaryGetValue item kSecAttrService;
     let account = CFDictionaryGetValue item kSecAttrAccount;
     let (query, w) = CFDictionaryCreateMutable w;
     query \<leftarrow> CFDictionaryAddValue query kSecAttrService service;
     query \<leftarrow> CFDictionaryAddValue query kSecClass (Some kSecClassGenericPassword);
     query \<leftarrow> CFDictionaryAddValue query kSecMatchLimit (Some kSecMatchLimitOne);
     query \<leftarrow> CFDictionaryAddValue query kSecReturnAttributes (Some kCFBooleanTrue);
     query \<leftarrow> CFDictionaryAddValue query kSecReturnData (Some kCFBooleanTrue);
     query \<leftarrow> CFDictionaryAddValue query kSecAttrAccount account;
     let cred = Credentials_default;
     let (status, result, w) = SecItemCopyMatching B (obj query) w;
     w \<leftarrow> CFRelease (Some query) w;
     (cred, w) \<leftarrow>
       (if status = errSecSuccess
        then (case result of
                Some (h, CFDictionary attrs) \<Rightarrow>
                  (case CFDictionaryGetValue attrs kSecValueData of
                     Some (CFData passwordData) \<Rightarrow> do {
                       let (password, w) =
                         CFStringCreateFromExternalRepresentation B passwordData w;
                       accountStr \<leftarrow> CFStringToStdString B account;
                       passwordStr \<leftarrow> CFStringToStdString B (target password);
                       let cred = (accountStr, passwordStr);
                       w \<leftarrow> CFRelease password w;
                       Some (cred, w)
                     }
                   | _ \<Rightarrow> None)
              | _ \<Rightarrow> None)
        else Some (cred, w));
     w \<leftarrow> (case result of None \<Rightarrow> Some w | Some r \<Rightarrow> CFRelease result w);
     Some (cred, w)
   }"

text \<open>
  The loop of \<^verbatim>\<open>find_credentials\<close>: \<^verbatim>\<open>for (int idx = 0; idx < resultCount; idx++)\<close>, each
  item cast to a dictionary and its credential pushed to the back of the caller's vector.
  Both counters are \<^verbatim>\<open>int\<close>; \<open>idx\<close> is below \<open>resultCount\<close> when it is incremented, so the
  increment does not overflow. An index outside the array does not return.
\<close>

function find_credentials_loop ::
  "'k SecureBackend \<Rightarrow> cftype list \<Rightarrow> int \<Rightarrow> int \<Rightarrow> Credentials list \<Rightarrow> 'k world
     \<Rightarrow> (Credentials list \<times> 'k world) option" where
  "find_credentials_loop B resultArray idx resultCount credentials w =
     (if idx < resultCount
      then (if 0 \<le> idx \<and> nat idx < length resultArray
            then (case resultArray ! nat idx of
                    CFDictionary item \<Rightarrow>
                      (case getCredentialsForItem B item w of
                         Some (cred, w) \<Rightarrow>
                           find_credentials_loop B resultArray (idx + 1) resultCount
                             (credentials @ [cred]) w
                       | None \<Rightarrow> None)
                  | _ \<Rightarrow> None)
            else None)
      else Some (credentials, w))"
  by pat_completeness auto
termination
  by (relation "measure (\<lambda>(B, resultArray, idx, resultCount, credentials, w).
                  nat (resultCount - idx))")
     auto

declare find_credentials_loop.simps [simp del]

definition find_credentials ::
  "'k SecureBackend \<Rightarrow> string \<Rightarrow> Credentials list \<Rightarrow> string \<Rightarrow> 'k world
     \<Rightarrow> (LIBCRED_RESULT \<times> Credentials list \<times> string \<times> 'k world) option" where
  "find_credentials B service credentials error w = do {
     let (serviceStr, w) = CFStringCreateWithCString B (c_str service) w;
     let (query, w) = CFDictionaryCreateMutable w;
     query \<leftarrow> CFDictionaryAddValue query kSecClass (Some kSecClassGenericPassword);
     query \<leftarrow> CFDictionaryAddValue query kSecAttrService (target serviceStr);
     query \<leftarrow> CFDictionaryAddValue query kSecMatchLimit (Some kSecMatchLimitAll);
     query \<leftarrow> CFDictionaryAddValue query kSecReturnRef (Some kCFBooleanTrue);
     query \<leftarrow> CFDictionaryAddValue query kSecReturnAttributes (Some kCFBooleanTrue);
     let (status, result, w) = SecItemCopyMatching B (obj query) w;
     w \<leftarrow> CFRelease serviceStr w;
     w \<leftarrow> CFRelease (Some query) w;
     if status = errSecSuccess
     then (case result of
             Some (h, CFArray resultArray) \<Rightarrow> do {
               let resultCount = int_of_CFIndex (CFArrayGetCount resultArray);
               (credentials, w) \<leftarrow>
                 find_credentials_loop B resultArray 0 resultCount credentials w;
               w \<leftarrow> CFRelease result w;
               Some (SUCCESS, credentials, error, w)
             }
           | _ \<Rightarrow> None)
     else if status = errSecItemNotFound
     then Some (FAIL_NONFATAL, credentials, error, w)
     else do {
       (error, w) \<leftarrow> errorStatusToString B status w;
       Some (FAIL_ERROR, credentials, error, w)
     }
   }"

section \<open>A reference backend\<close>

text \<open>
  The keychain as the Security framework documents it, reduced to what the adapter uses:
  the store is a list of items, each an attribute dictionary with its class and its
  data. A query matches an item when the item has every search attribute of the query
  (class, account, server, service) with the same value. Adding an item whose search
  attributes match a stored item is a duplicate; an update rewrites every matching item;
  a lookup answers in the shape the query's return keys ask for, one item or all.
\<close>

definition search_keys :: "cfkey list" where
  "search_keys = [kSecClass, kSecAttrAccount, kSecAttrServer, kSecAttrService]"

definition matches :: "cfdict \<Rightarrow> cfdict \<Rightarrow> bool" where
  "matches query item =
     list_all (\<lambda>(k, v). if k \<in> set search_keys then map_of item k = Some v else True) query"

definition dict_override :: "cfdict \<Rightarrow> cfdict \<Rightarrow> cfdict" where
  "dict_override item update = filter (\<lambda>(k, v). k \<notin> set (map fst update)) item @ update"

definition kc_itemAdd :: "cfdict \<Rightarrow> cfdict list \<Rightarrow> OSStatus \<times> cfdict list" where
  "kc_itemAdd attributes kc =
     (if list_ex (matches attributes) kc then (errSecDuplicateItem, kc)
      else (errSecSuccess, kc @ [attributes]))"

definition kc_itemUpdate :: "cfdict \<Rightarrow> cfdict \<Rightarrow> cfdict list \<Rightarrow> OSStatus \<times> cfdict list" where
  "kc_itemUpdate query update kc =
     (if list_ex (matches query) kc
      then (errSecSuccess,
            map (\<lambda>item. if matches query item then dict_override item update else item) kc)
      else (errSecItemNotFound, kc))"

definition kc_itemDelete :: "cfdict \<Rightarrow> cfdict list \<Rightarrow> OSStatus \<times> cfdict list" where
  "kc_itemDelete query kc =
     (if list_ex (matches query) kc
      then (errSecSuccess, filter (\<lambda>item. \<not> matches query item) kc)
      else (errSecItemNotFound, kc))"

definition kc_shape :: "cfdict \<Rightarrow> cfdict \<Rightarrow> cftype" where
  "kc_shape query item =
     (if map_of query kSecReturnAttributes = Some kCFBooleanTrue
      then CFDictionary
             (if map_of query kSecReturnData = Some kCFBooleanTrue then item
              else filter (\<lambda>(k, v). k \<noteq> kSecValueData) item)
      else (case map_of item kSecValueData of Some d \<Rightarrow> d | None \<Rightarrow> CFData []))"

definition kc_itemCopyMatching ::
  "cfdict \<Rightarrow> cfdict list \<Rightarrow> OSStatus \<times> cftype option \<times> cfdict list" where
  "kc_itemCopyMatching query kc =
     (case filter (matches query) kc of
        [] \<Rightarrow> (errSecItemNotFound, None, kc)
      | item # items \<Rightarrow>
          (errSecSuccess,
           Some (if map_of query kSecMatchLimit = Some kSecMatchLimitAll
                 then CFArray (map (kc_shape query) (item # items))
                 else kc_shape query item),
           kc))"

definition kc_copyErrorMessageString :: "OSStatus \<Rightarrow> string option" where
  "kc_copyErrorMessageString status =
     (if status = errSecItemNotFound
      then Some ''The specified item could not be found in the keychain.''
      else if status = errSecDuplicateItem
      then Some ''The specified item already exists in the keychain.''
      else if status = errSecAuthFailed
      then Some ''The user name or passphrase you entered is not correct.''
      else None)"

text \<open>
  Strings: bytes are text when they are well-formed UTF-8 (the shortest encoding of a
  code point up to U+10FFFF that is not a surrogate); a direct C pointer exists for ASCII
  contents; the length counts UTF-16 units; a copy needs room for the bytes and the NUL.
\<close>

definition byte :: "char \<Rightarrow> nat" where
  "byte c = of_char c"

definition continuation :: "char \<Rightarrow> bool" where
  "continuation c = (128 \<le> byte c \<and> byte c < 192)"

text \<open>The byte that may follow the lead byte \<open>b\<close> of a sequence of three or four bytes.\<close>

definition second_byte :: "char \<Rightarrow> char \<Rightarrow> bool" where
  "second_byte b c =
     (if byte b = 224 then 160 \<le> byte c \<and> byte c < 192
      else if byte b = 237 then 128 \<le> byte c \<and> byte c < 160
      else if byte b = 240 then 144 \<le> byte c \<and> byte c < 192
      else if byte b = 244 then 128 \<le> byte c \<and> byte c < 144
      else continuation c)"

fun utf8 :: "string \<Rightarrow> bool" where
  "utf8 [] = True"
| "utf8 (b # bs) =
     (if byte b < 128 then utf8 bs
      else if 194 \<le> byte b \<and> byte b < 224
      then (case bs of
              c # r \<Rightarrow> continuation c \<and> utf8 r
            | _ \<Rightarrow> False)
      else if 224 \<le> byte b \<and> byte b < 240
      then (case bs of
              c # d # r \<Rightarrow> second_byte b c \<and> continuation d \<and> utf8 r
            | _ \<Rightarrow> False)
      else if 240 \<le> byte b \<and> byte b < 245
      then (case bs of
              c # d # e # r \<Rightarrow> second_byte b c \<and> continuation d \<and> continuation e \<and> utf8 r
            | _ \<Rightarrow> False)
      else False)"

definition kc_getCStringPtr :: "string \<Rightarrow> string option" where
  "kc_getCStringPtr s = (if list_all (\<lambda>c. byte c < 128) s then Some s else None)"

definition kc_getLength :: "string \<Rightarrow> nat" where
  "kc_getLength s =
     length (filter (\<lambda>c. \<not> continuation c) s) + length (filter (\<lambda>c. 240 \<le> byte c) s)"

definition kc_getCString :: "string \<Rightarrow> nat \<Rightarrow> string option" where
  "kc_getCString s n = (if length s < n then Some s else None)"

definition kc_createFromExternalRepresentation :: "string \<Rightarrow> string option" where
  "kc_createFromExternalRepresentation bytes = (if utf8 bytes then Some bytes else None)"

definition keychain_backend :: "cfdict list SecureBackend" where
  "keychain_backend =
     \<lparr>itemAdd = kc_itemAdd,
      itemUpdate = kc_itemUpdate,
      itemCopyMatching = kc_itemCopyMatching,
      itemDelete = kc_itemDelete,
      copyErrorMessageString = kc_copyErrorMessageString,
      validCString = utf8,
      getCStringPtr = kc_getCStringPtr,
      getLength = kc_getLength,
      getCString = kc_getCString,
      createFromExternalRepresentation = kc_createFromExternalRepresentation\<rparr>"

text \<open>The same system with a keychain that refuses every request with one status.\<close>

definition refusing_backend :: "OSStatus \<Rightarrow> cfdict list SecureBackend" where
  "refusing_backend status =
     keychain_backend
       \<lparr>itemAdd := \<lambda>attributes kc. (status, kc),
        itemUpdate := \<lambda>query update kc. (status, kc),
        itemCopyMatching := \<lambda>query kc. (status, None, kc),
        itemDelete := \<lambda>query kc. (status, kc)\<rparr>"

text \<open>
  The refusing keychain on a system that describes every status with one message, as a
  system does whose messages are translated.
\<close>

definition describing_backend :: "OSStatus \<Rightarrow> string \<Rightarrow> cfdict list SecureBackend" where
  "describing_backend status message =
     (refusing_backend status)\<lparr>copyErrorMessageString := \<lambda>status. Some message\<rparr>"

text \<open>
  The same system with a keychain that lists attributes but refuses to hand out data:
  every lookup that asks for the data is answered with an authorisation failure.
\<close>

definition guarded_backend :: "cfdict list SecureBackend" where
  "guarded_backend =
     keychain_backend
       \<lparr>itemCopyMatching := \<lambda>query kc.
          if map_of query kSecReturnData = Some kCFBooleanTrue
          then (errSecAuthFailed, None, kc)
          else kc_itemCopyMatching query kc\<rparr>"

text \<open>The state before the first call: nothing owned, nothing requested.\<close>

definition start :: "'k \<Rightarrow> 'k world" where
  "start k = \<lparr>keychain = k, owned = [], next_ref = 0, calls = []\<rparr>"

section \<open>The requests the adapter builds\<close>

text \<open>
  The dictionaries of the source, by the function that builds them: the \<^verbatim>\<open>query\<close> and
  \<^verbatim>\<open>update\<close> of \<^verbatim>\<open>set_password\<close> (the same \<^verbatim>\<open>query\<close> in \<^verbatim>\<open>delete_password\<close>), the
  \<^verbatim>\<open>attributes\<close> of \<^verbatim>\<open>AddPassword\<close>, and the \<^verbatim>\<open>query\<close> of \<^verbatim>\<open>get_password\<close>,
  \<^verbatim>\<open>find_password\<close>, \<^verbatim>\<open>find_credentials\<close> and \<^verbatim>\<open>getCredentialsForItem\<close>.
\<close>

definition key_query :: "string \<Rightarrow> string \<Rightarrow> cfdict" where
  "key_query service account =
     [(kSecClass, kSecClassInternetPassword),
      (kSecAttrAccount, CFString (cstring account)),
      (kSecAttrServer, CFString (cstring service))]"

definition password_update :: "string \<Rightarrow> cfdict" where
  "password_update password = [(kSecValueData, CFData password)]"

definition add_attributes :: "string \<Rightarrow> string \<Rightarrow> string \<Rightarrow> cfdict" where
  "add_attributes service account password =
     [(kSecClass, kSecClassInternetPassword),
      (kSecAttrServer, CFString (cstring service)),
      (kSecAttrAccount, CFString (cstring account)),
      (kSecValueData, CFData password)]"

definition get_query :: "string \<Rightarrow> string \<Rightarrow> cfdict" where
  "get_query service account =
     [(kSecClass, kSecClassInternetPassword),
      (kSecAttrAccount, CFString (cstring account)),
      (kSecAttrServer, CFString (cstring service)),
      (kSecReturnData, kCFBooleanTrue),
      (kSecMatchLimit, kSecMatchLimitOne)]"

definition find_query :: "string \<Rightarrow> cfdict" where
  "find_query service =
     [(kSecClass, kSecClassInternetPassword),
      (kSecAttrServer, CFString (cstring service)),
      (kSecReturnData, kCFBooleanTrue),
      (kSecMatchLimit, kSecMatchLimitOne)]"

definition find_all_query :: "string \<Rightarrow> cfdict" where
  "find_all_query service =
     [(kSecClass, kSecClassGenericPassword),
      (kSecAttrService, CFString (cstring service)),
      (kSecMatchLimit, kSecMatchLimitAll),
      (kSecReturnRef, kCFBooleanTrue),
      (kSecReturnAttributes, kCFBooleanTrue)]"

text \<open>
  The per-item query: \<^verbatim>\<open>CFDictionaryAddValue\<close> leaves a key that is already present, so
  the class, limit and return keys are as written for every service and account.
\<close>

definition item_query :: "cftype \<Rightarrow> cftype \<Rightarrow> cfdict" where
  "item_query service account =
     [(kSecAttrService, service),
      (kSecClass, kSecClassGenericPassword),
      (kSecMatchLimit, kSecMatchLimitOne),
      (kSecReturnAttributes, kCFBooleanTrue),
      (kSecReturnData, kCFBooleanTrue),
      (kSecAttrAccount, account)]"

text \<open>
  A stored generic-password item, and a keychain used in examples: one internet password
  whose secret holds a NUL and a byte that is not UTF-8, and three generic passwords.
\<close>

definition generic_item :: "string \<Rightarrow> string \<Rightarrow> string \<Rightarrow> cfdict" where
  "generic_item service account secret =
     [(kSecClass, kSecClassGenericPassword),
      (kSecAttrService, CFString service),
      (kSecAttrAccount, CFString account),
      (kSecValueData, CFData secret)]"

definition sample_keychain :: "cfdict list" where
  "sample_keychain =
     [add_attributes ''mail'' ''alice'' [CHR ''p'', CHR 0x00, CHR 0xFF],
      generic_item ''mail'' ''bob'' ''pw2'',
      generic_item ''mail'' ''carol'' ''pw3'',
      generic_item ''mail'' ''dave'' ''pw4'']"

section \<open>Strings handed to the backend\<close>

lemma cstring_c_str: "cstring (c_str s) = cstring s"
  by (induction s) (simp_all add: cstring_def c_str_def)

lemma cstring_idem: "cstring (cstring s) = cstring s"
  by (simp add: cstring_def)

lemma take_c_str: "take (length s) (c_str s) = s"
  by (simp add: c_str_def)

lemma int_of_CFIndex_small: "n < 2147483648 \<Longrightarrow> int_of_CFIndex n = int n"
  unfolding int_of_CFIndex_def
  by (simp add: signed_take_bit_int_eq_self sint_uint take_bit_nat_eq_self unsigned_of_nat
        take_bit_int_eq_self)

section \<open>Running the operations\<close>

lemmas cf_defs = CFCreate_def CFRelease_def CFStringCreateWithCString_def CFDataCreate_def
  CFDictionaryCreate_def CFDictionaryCreateMutable_def CFDictionaryAddValue_def
  CFDictionaryGetValue_def CFArrayGetCount_def SecItemAdd_def SecItemUpdate_def
  SecItemDelete_def SecItemCopyMatching_def SecCopyErrorMessageString_def
  CFStringCreateFromExternalRepresentation_def CFStringGetCStringPtr_def

lemmas query_defs = key_query_def password_update_def add_attributes_def get_query_def
  find_query_def find_all_query_def item_query_def

text \<open>What \<^verbatim>\<open>errorStatusToString\<close> returns, and that the message does not depend on the state.\<close>

lemma errorStatusToString_Some:
  "errorStatusToString B status w = Some (msg, w') \<longleftrightarrow>
     (\<exists>m. copyErrorMessageString B status = Some m \<and>
          msg = (case getCStringPtr B m of
                   Some p \<Rightarrow> cstring p
                 | None \<Rightarrow> ''An unknown error occurred.'') \<and>
          w' = w\<lparr>owned := remove1 (next_ref w) (owned w @ [next_ref w]),
                 next_ref := Suc (next_ref w)\<rparr>)"
  by (auto simp: errorStatusToString_def cf_defs Let_def std_string_def split: option.splits)

lemma errorStatusToString_None:
  "errorStatusToString B status w = None \<longleftrightarrow> copyErrorMessageString B status = None"
  by (auto simp: errorStatusToString_def cf_defs Let_def std_string_def split: option.splits)

lemma errorStatusToString_any_world:
  "errorStatusToString B status v = Some (msg, v') \<Longrightarrow>
   \<exists>b. errorStatusToString B status w = Some (msg, b)"
  by (auto simp: errorStatusToString_Some)

text \<open>
  An operation that returns was given a service and an account that
  \<^verbatim>\<open>CFStringCreateWithCString\<close> accepts.
\<close>

lemma set_password_valid:
  "set_password B service account password error w = Some x \<Longrightarrow>
   validCString B (cstring service) \<and> validCString B (cstring account)"
  by (auto simp: set_password_def cf_defs Let_def cstring_c_str
        split: if_splits Option.bind_splits)

lemma get_password_valid:
  "get_password B service account password error w = Some x \<Longrightarrow>
   validCString B (cstring service) \<and> validCString B (cstring account)"
  by (auto simp: get_password_def cf_defs Let_def cstring_c_str
        split: if_splits Option.bind_splits)

lemma delete_password_valid:
  "delete_password B service account error w = Some x \<Longrightarrow>
   validCString B (cstring service) \<and> validCString B (cstring account)"
  by (auto simp: delete_password_def cf_defs Let_def cstring_c_str
        split: if_splits Option.bind_splits)

lemma find_password_valid:
  "find_password B service password error w = Some x \<Longrightarrow> validCString B (cstring service)"
  by (auto simp: find_password_def cf_defs Let_def cstring_c_str
        split: if_splits Option.bind_splits)

lemma find_credentials_valid:
  "find_credentials B service credentials error w = Some x \<Longrightarrow>
   validCString B (cstring service)"
  by (auto simp: find_credentials_def cf_defs Let_def cstring_c_str
        split: if_splits Option.bind_splits)

text \<open>A service or an account that is not accepted: no operation returns.\<close>

lemma invalid_key_aborts:
  assumes "\<not> validCString B (cstring service) \<or> \<not> validCString B (cstring account)"
  shows "set_password B service account password error w = None"
    and "get_password B service account password error w = None"
    and "delete_password B service account error w = None"
proof -
  from assms show "set_password B service account password error w = None"
    by (metis option.exhaust set_password_valid)
  from assms show "get_password B service account password error w = None"
    by (metis option.exhaust get_password_valid)
  from assms show "delete_password B service account error w = None"
    by (metis option.exhaust delete_password_valid)
qed

lemma invalid_service_aborts:
  assumes "\<not> validCString B (cstring service)"
  shows "find_password B service password error w = None"
    and "find_credentials B service credentials error w = None"
proof -
  from assms show "find_password B service password error w = None"
    by (metis option.exhaust find_password_valid)
  from assms show "find_credentials B service credentials error w = None"
    by (metis option.exhaust find_credentials_valid)
qed

text \<open>The paths of \<^verbatim>\<open>set_password\<close>, \<^verbatim>\<open>get_password\<close> and \<^verbatim>\<open>delete_password\<close> that succeed.\<close>

lemma set_password_updated:
  assumes "validCString B (cstring service)" and "validCString B (cstring account)"
      and "itemUpdate B (key_query service account) (password_update password) (keychain w)
             = (errSecSuccess, k)"
  shows "\<exists>w'. set_password B service account password error w = Some (SUCCESS, error, w') \<and>
              keychain w' = k"
  using assms
  by (simp add: set_password_def cf_defs Let_def query_defs cstring_c_str take_c_str
        errSecSuccess_def errSecItemNotFound_def)

lemma set_password_added:
  assumes "validCString B (cstring service)" and "validCString B (cstring account)"
      and "itemUpdate B (key_query service account) (password_update password) (keychain w)
             = (errSecItemNotFound, k)"
      and "itemAdd B (add_attributes service account password) k = (errSecSuccess, k')"
  shows "\<exists>w'. set_password B service account password error w = Some (SUCCESS, error, w') \<and>
              keychain w' = k'"
  using assms
  by (simp add: set_password_def AddPassword_def cf_defs Let_def query_defs cstring_c_str
        take_c_str)

lemma get_password_found:
  assumes "validCString B (cstring service)" and "validCString B (cstring account)"
      and "itemCopyMatching B (get_query service account) (keychain w)
             = (errSecSuccess, Some (CFData bytes), k)"
  shows "\<exists>w'. get_password B service account password error w
                = Some (SUCCESS, bytes, error, w') \<and> keychain w' = k"
  using assms
  by (simp add: get_password_def cf_defs Let_def query_defs cstring_c_str std_string_n_def
        errSecSuccess_def errSecItemNotFound_def)

lemma get_password_missing:
  assumes "validCString B (cstring service)" and "validCString B (cstring account)"
      and "itemCopyMatching B (get_query service account) (keychain w)
             = (errSecItemNotFound, result, k)"
  shows "\<exists>w'. get_password B service account password error w
                = Some (FAIL_NONFATAL, password, error, w') \<and> keychain w' = k"
  using assms
  by (cases result)
     (simp_all add: get_password_def cf_defs Let_def query_defs cstring_c_str split: prod.splits)

lemma delete_password_deleted:
  assumes "validCString B (cstring service)" and "validCString B (cstring account)"
      and "itemDelete B (key_query service account) (keychain w) = (errSecSuccess, k)"
  shows "\<exists>w'. delete_password B service account error w = Some (SUCCESS, error, w') \<and>
              keychain w' = k"
  using assms
  by (simp add: delete_password_def cf_defs Let_def query_defs cstring_c_str
        errSecSuccess_def errSecItemNotFound_def)

lemma delete_password_missing:
  assumes "validCString B (cstring service)" and "validCString B (cstring account)"
      and "itemDelete B (key_query service account) (keychain w) = (errSecItemNotFound, k)"
  shows "\<exists>w'. delete_password B service account error w = Some (FAIL_NONFATAL, error, w') \<and>
              keychain w' = k"
  using assms
  by (simp add: delete_password_def cf_defs Let_def query_defs cstring_c_str)

lemma find_password_missing:
  assumes "validCString B (cstring service)"
      and "itemCopyMatching B (find_query service) (keychain w) = (errSecItemNotFound, result, k)"
  shows "\<exists>w'. find_password B service password error w
                = Some (FAIL_NONFATAL, password, error, w') \<and> keychain w' = k"
  using assms
  by (cases result)
     (simp_all add: find_password_def cf_defs Let_def query_defs cstring_c_str split: prod.splits)

lemma find_credentials_missing:
  assumes "validCString B (cstring service)"
      and "itemCopyMatching B (find_all_query service) (keychain w)
             = (errSecItemNotFound, result, k)"
  shows "\<exists>w'. find_credentials B service credentials error w
                = Some (FAIL_NONFATAL, credentials, error, w') \<and> keychain w' = k"
  using assms
  by (cases result)
     (simp_all add: find_credentials_def cf_defs Let_def query_defs cstring_c_str
        errSecSuccess_def errSecItemNotFound_def split: prod.splits)

text \<open>One item of the enumeration: the lookup refused, and the lookup answered.\<close>

lemma getCredentialsForItem_refused:
  assumes "map_of item kSecAttrService = Some service"
      and "map_of item kSecAttrAccount = Some account"
      and "itemCopyMatching B (item_query service account) (keychain w) = (status, result, k)"
      and "status \<noteq> errSecSuccess"
  shows "\<exists>w'. getCredentialsForItem B item w = Some (Credentials_default, w') \<and>
              keychain w' = k"
  using assms
  by (cases result)
     (simp_all add: getCredentialsForItem_def cf_defs Let_def item_query_def split: prod.splits)

lemma getCredentialsForItem_query:
  assumes "getCredentialsForItem B item w = Some (cred, w')"
  shows "\<exists>service account.
           map_of item kSecAttrService = Some service \<and>
           map_of item kSecAttrAccount = Some account \<and>
           calls w' = calls w @ [CopyMatching (item_query service account)] \<and>
           keychain w' = snd (snd (itemCopyMatching B (item_query service account) (keychain w)))"
  using assms
  by (clarsimp simp add: getCredentialsForItem_def cf_defs Let_def item_query_def
        split: prod.splits option.splits cftype.splits Option.bind_splits if_splits)

lemma getCredentialsForItem_decoded:
  assumes "getCredentialsForItem B item w = Some (cred, w')"
      and "map_of item kSecAttrService = Some service"
      and "map_of item kSecAttrAccount = Some account"
      and "itemCopyMatching B (item_query service account) (keychain w)
             = (errSecSuccess, result, k)"
  shows "\<exists>attrs passwordData text.
           result = Some (CFDictionary attrs) \<and>
           map_of attrs kSecValueData = Some (CFData passwordData) \<and>
           createFromExternalRepresentation B passwordData = Some text \<and>
           CFStringToStdString B (Some account) = Some (fst cred) \<and>
           CFStringToStdString B (Some (CFString text)) = Some (snd cred)"
  using assms
  by (clarsimp simp add: getCredentialsForItem_def cf_defs Let_def item_query_def
        split: prod.splits option.splits cftype.splits Option.bind_splits if_splits)

text \<open>
  What one item becomes when its lookup answers: the account and the decoded secret, each
  read as a C string from the pointer or the copy \<^verbatim>\<open>CFStringToStdString\<close> obtained.
\<close>

lemma CFStringToStdString_c_string:
  assumes "getCStringPtr B s = Some p \<or>
           getCStringPtr B s = None \<and> getCString B s (getLength B s * 2 + 1) = Some p"
  shows "CFStringToStdString B (Some (CFString s)) = Some (cstring p)"
  using assms by (auto simp: CFStringToStdString_def cf_defs std_string_def Let_def)

lemma getCredentialsForItem_exact:
  assumes "getCredentialsForItem B item w = Some (cred, w')"
      and "map_of item kSecAttrService = Some service"
      and "map_of item kSecAttrAccount = Some (CFString account)"
      and "itemCopyMatching B (item_query service (CFString account)) (keychain w)
             = (errSecSuccess, Some (CFDictionary attrs), k)"
      and "map_of attrs kSecValueData = Some (CFData passwordData)"
      and "createFromExternalRepresentation B passwordData = Some text"
      and "getCStringPtr B account = Some a \<or>
           getCStringPtr B account = None \<and>
           getCString B account (getLength B account * 2 + 1) = Some a"
      and "getCStringPtr B text = Some s \<or>
           getCStringPtr B text = None \<and> getCString B text (getLength B text * 2 + 1) = Some s"
  shows "cred = (cstring a, cstring s)"
proof -
  from getCredentialsForItem_decoded [OF assms(1-4)] assms(5,6)
  have "CFStringToStdString B (Some (CFString account)) = Some (fst cred)"
    "CFStringToStdString B (Some (CFString text)) = Some (snd cred)"
    by auto
  with CFStringToStdString_c_string [OF assms(7)] CFStringToStdString_c_string [OF assms(8)]
  show ?thesis by (cases cred) simp
qed

text \<open>
  The count of an array of \<^verbatim>\<open>INT_MAX\<close> + 1 elements is negative as an \<^verbatim>\<open>int\<close>, and the loop
  over such an array visits no element.
\<close>

lemma int_of_CFIndex_wraps: "int_of_CFIndex 2147483648 = - 2147483648"
  by (simp add: int_of_CFIndex_def)

lemma find_credentials_loop_wrapped:
  "find_credentials_loop B resultArray 0 (int_of_CFIndex 2147483648) credentials w
     = Some (credentials, w)"
  by (subst find_credentials_loop.simps) (simp add: int_of_CFIndex_wraps)

text \<open>The loop pushes one credential for each index it visits.\<close>

lemma find_credentials_loop_step:
  assumes "idx < resultCount"
      and "find_credentials_loop B resultArray idx resultCount credentials w
             = Some (credentials', w')"
  shows "\<exists>item cred w1.
           0 \<le> idx \<and> nat idx < length resultArray \<and>
           resultArray ! nat idx = CFDictionary item \<and>
           getCredentialsForItem B item w = Some (cred, w1) \<and>
           find_credentials_loop B resultArray (idx + 1) resultCount (credentials @ [cred]) w1
             = Some (credentials', w')"
  using assms
  by (subst (asm) find_credentials_loop.simps)
     (auto split: if_splits cftype.splits option.splits)

lemma find_credentials_loop_extends:
  "find_credentials_loop B resultArray idx resultCount credentials w = Some (credentials', w') \<Longrightarrow>
   idx \<le> resultCount \<Longrightarrow>
   \<exists>ext. credentials' = credentials @ ext \<and> int (length ext) = resultCount - idx"
proof (induction B resultArray idx resultCount credentials w
       rule: find_credentials_loop.induct)
  case (1 B resultArray idx resultCount credentials w)
  show ?case
  proof (cases "idx < resultCount")
    case False
    with "1.prems" show ?thesis
      by (simp add: find_credentials_loop.simps [of _ _ idx])
  next
    case True
    from find_credentials_loop_step [OF True "1.prems"(1)] obtain item cred w1 where
      a: "0 \<le> idx \<and> nat idx < length resultArray" "resultArray ! nat idx = CFDictionary item"
         "getCredentialsForItem B item w = Some (cred, w1)"
         "find_credentials_loop B resultArray (idx + 1) resultCount (credentials @ [cred]) w1
            = Some (credentials', w')"
      by blast
    from "1.IH" [OF True a(1) a(2) a(3) refl a(4)] True
    obtain ext where "credentials' = (credentials @ [cred]) @ ext"
      "int (length ext) = resultCount - (idx + 1)"
      by auto
    with True show ?thesis by (intro exI [of _ "cred # ext"]) auto
  qed
qed

text \<open>
  The credential at the position of the item with index \<open>i\<close> is the one
  \<^verbatim>\<open>getCredentialsForItem\<close> returned for that item, in a state that satisfies every
  property \<open>P\<close> of the first state that \<^verbatim>\<open>getCredentialsForItem\<close> keeps.
\<close>

lemma find_credentials_loop_nth:
  "find_credentials_loop B resultArray idx resultCount credentials w = Some (credentials', w') \<Longrightarrow>
   0 \<le> idx \<Longrightarrow> idx \<le> i \<Longrightarrow> i < resultCount \<Longrightarrow> P w \<Longrightarrow>
   (\<forall>item v cred v'. P v \<longrightarrow> getCredentialsForItem B item v = Some (cred, v') \<longrightarrow> P v') \<Longrightarrow>
   \<exists>item v v'. resultArray ! nat i = CFDictionary item \<and> P v \<and>
     getCredentialsForItem B item v
       = Some (credentials' ! (length credentials + nat (i - idx)), v')"
proof (induction B resultArray idx resultCount credentials w
       rule: find_credentials_loop.induct)
  case (1 B resultArray idx resultCount credentials w)
  from "1.prems" have lt: "idx < resultCount" by simp
  from find_credentials_loop_step [OF lt "1.prems"(1)] obtain it cred w1 where
    a: "0 \<le> idx \<and> nat idx < length resultArray" "resultArray ! nat idx = CFDictionary it"
       "getCredentialsForItem B it w = Some (cred, w1)"
       "find_credentials_loop B resultArray (idx + 1) resultCount (credentials @ [cred]) w1
          = Some (credentials', w')"
    by blast
  show ?case
  proof (cases "idx = i")
    case True
    from find_credentials_loop_extends [OF a(4)] lt
    obtain ext where "credentials' = (credentials @ [cred]) @ ext" by auto
    then have "credentials' ! (length credentials + nat (i - idx)) = cred"
      using True by (simp add: nth_append)
    with a(2,3) True "1.prems"(5) show ?thesis by auto
  next
    case False
    with "1.prems" have le: "idx + 1 \<le> i" and z: "0 \<le> idx + 1" by simp_all
    from "1.prems"(5,6) a(3) have p: "P w1" by blast
    from le "1.prems"(2)
    have "length (credentials @ [cred]) + nat (i - (idx + 1))
            = length credentials + nat (i - idx)"
      by simp
    with "1.IH" [OF lt a(1) a(2) a(3) refl a(4) z le "1.prems"(4) p "1.prems"(6)]
    show ?thesis by (simp only:)
  qed
qed

lemma find_credentials_loop_default:
  assumes "find_credentials_loop B resultArray idx resultCount credentials w
             = Some (credentials', w')"
      and "0 \<le> idx" and "idx \<le> i" and "i < resultCount"
      and "resultArray ! nat i = CFDictionary item"
      and "map_of item kSecAttrService = Some service"
      and "map_of item kSecAttrAccount = Some account"
      and "\<And>k. fst (itemCopyMatching B (item_query service account) k) \<noteq> errSecSuccess"
  shows "credentials' ! (length credentials + nat (i - idx)) = Credentials_default"
proof -
  from find_credentials_loop_nth [OF assms(1-4), where P = "\<lambda>v. True"] assms(5)
  obtain v v' where
    g: "getCredentialsForItem B item v
          = Some (credentials' ! (length credentials + nat (i - idx)), v')"
    by auto
  obtain status result k where
    cm: "itemCopyMatching B (item_query service account) (keychain v) = (status, result, k)"
    by (cases "itemCopyMatching B (item_query service account) (keychain v)")
  with assms(8) [of "keychain v"] have "status \<noteq> errSecSuccess" by simp
  from getCredentialsForItem_refused [OF assms(6,7) cm this] g show ?thesis by auto
qed

text \<open>A backend whose lookups leave the store as it is: the loop does too.\<close>

lemma getCredentialsForItem_keychain:
  assumes "\<forall>q k. snd (snd (itemCopyMatching B q k)) = k"
      and "getCredentialsForItem B item w = Some (cred, w')"
  shows "keychain w' = keychain w"
  using getCredentialsForItem_query [OF assms(2)] assms(1) by auto

text \<open>The enumeration after a lookup that succeeded: the result is an array, and the loop ran.\<close>

lemma find_credentials_found:
  assumes "find_credentials B service credentials error w = Some (r, credentials', error', w')"
      and "itemCopyMatching B (find_all_query service) (keychain w) = (errSecSuccess, result, k)"
  shows "\<exists>resultArray w1 w2.
           result = Some (CFArray resultArray) \<and> r = SUCCESS \<and> error' = error \<and>
           find_credentials_loop B resultArray 0 (int_of_CFIndex (length resultArray))
             credentials w1
             = Some (credentials', w2) \<and>
           keychain w1 = k"
  using assms
  by (clarsimp simp add: find_credentials_def cf_defs Let_def find_all_query_def cstring_c_str
        split: prod.splits option.splits cftype.splits Option.bind_splits if_splits)
     ((intro exI conjI, assumption, simp)+)

lemma find_credentials_SUCCESS:
  assumes "find_credentials B service credentials error w
             = Some (SUCCESS, credentials', error', w')"
  shows "\<exists>result k.
           itemCopyMatching B (find_all_query service) (keychain w) = (errSecSuccess, result, k)"
proof -
  obtain status result k where
    cm: "itemCopyMatching B (find_all_query service) (keychain w) = (status, result, k)"
    by (cases "itemCopyMatching B (find_all_query service) (keychain w)")
  from assms cm show ?thesis
    by (clarsimp simp add: find_credentials_def cf_defs Let_def find_all_query_def
          cstring_c_str
          split: prod.splits option.splits cftype.splits Option.bind_splits if_splits)
qed

section \<open>The reference backend: matching, update and lookup\<close>

lemma backend_simps:
  "itemAdd keychain_backend = kc_itemAdd"
  "itemUpdate keychain_backend = kc_itemUpdate"
  "itemCopyMatching keychain_backend = kc_itemCopyMatching"
  "itemDelete keychain_backend = kc_itemDelete"
  "validCString keychain_backend = utf8"
  by (simp_all add: keychain_backend_def)

lemma matches_get_query:
  "matches (get_query service account) item = matches (key_query service account) item"
  by (simp add: matches_def query_defs search_keys_def)

lemma matches_add_attributes:
  "matches (add_attributes service account password) item
     = matches (key_query service account) item"
  by (auto simp add: matches_def query_defs search_keys_def)

lemma map_of_dict_override_other:
  "k \<noteq> kSecValueData \<Longrightarrow>
   map_of (dict_override item (password_update password)) k = map_of item k"
  by (induction item) (auto simp: dict_override_def password_update_def)

lemma map_of_dict_override_data:
  "map_of (dict_override item (password_update password)) kSecValueData
     = Some (CFData password)"
  by (induction item) (auto simp: dict_override_def password_update_def)

lemma matches_dict_override:
  "matches (key_query service account) (dict_override item (password_update password))
     = matches (key_query service account) item"
  by (simp add: matches_def key_query_def search_keys_def map_of_dict_override_other)

lemma filter_updated:
  "filter (matches (key_query service account))
     (map (\<lambda>item. if matches (key_query service account) item
                   then dict_override item (password_update password) else item) kc)
   = map (\<lambda>item. dict_override item (password_update password))
       (filter (matches (key_query service account)) kc)"
  by (induction kc) (simp_all add: matches_dict_override)

lemma lookup_after_update:
  assumes "list_ex (matches (key_query service account)) kc"
  shows "kc_itemCopyMatching (get_query service account)
           (snd (kc_itemUpdate (key_query service account) (password_update password) kc))
         = (errSecSuccess, Some (CFData password),
            snd (kc_itemUpdate (key_query service account) (password_update password) kc))"
proof -
  from assms obtain item items
    where f: "filter (matches (key_query service account)) kc = item # items"
    by (cases "filter (matches (key_query service account)) kc")
       (auto simp: list_ex_iff filter_empty_conv)
  have "(\<lambda>i. matches (get_query service account) i) = matches (key_query service account)"
    by (rule ext) (rule matches_get_query)
  with assms f show ?thesis
    by (simp add: kc_itemCopyMatching_def kc_itemUpdate_def filter_updated kc_shape_def
          map_of_dict_override_data)
       (simp add: get_query_def)
qed

lemma lookup_after_add:
  assumes "\<not> list_ex (matches (key_query service account)) kc"
  shows "kc_itemCopyMatching (get_query service account)
           (snd (kc_itemAdd (add_attributes service account password) kc))
         = (errSecSuccess, Some (CFData password),
            snd (kc_itemAdd (add_attributes service account password) kc))"
proof -
  have eq: "(\<lambda>i. matches (get_query service account) i) = matches (key_query service account)"
    "(\<lambda>i. matches (add_attributes service account password) i)
       = matches (key_query service account)"
    by (rule ext, rule matches_get_query) (rule ext, rule matches_add_attributes)
  from assms have "filter (matches (key_query service account)) kc = []"
    by (auto simp: list_ex_iff filter_empty_conv)
  moreover have "matches (key_query service account) (add_attributes service account password)"
    by (simp add: matches_def query_defs search_keys_def)
  ultimately show ?thesis using assms
    by (simp add: kc_itemCopyMatching_def kc_itemAdd_def eq kc_shape_def)
       (simp add: get_query_def add_attributes_def)
qed

text \<open>
  The scenario of the specification on the reference backend: a secret is stored and read
  back, replaced and read back, deleted and no longer found.
\<close>

lemma mail_alice_scenario:
  "do {
     (r1, e, w) \<leftarrow> set_password keychain_backend ''mail'' ''alice'' ''p@ss1'' [] (start []);
     (r2, p2, e, w) \<leftarrow> get_password keychain_backend ''mail'' ''alice'' [] e w;
     (r3, e, w) \<leftarrow> set_password keychain_backend ''mail'' ''alice'' ''p@ss2'' e w;
     (r4, p4, e, w) \<leftarrow> get_password keychain_backend ''mail'' ''alice'' p2 e w;
     (r5, e, w) \<leftarrow> delete_password keychain_backend ''mail'' ''alice'' e w;
     (r6, p6, e, w) \<leftarrow> get_password keychain_backend ''mail'' ''alice'' [] e w;
     Some (r1, (r2, p2), r3, (r4, p4), r5, r6, keychain w)
   } = Some (SUCCESS, (SUCCESS, ''p@ss1''), SUCCESS, (SUCCESS, ''p@ss2''), SUCCESS,
             FAIL_NONFATAL, [])"
  by code_simp

section \<open>Ownership of references\<close>

text \<open>
  From a state whose owned references are all older than the next fresh one:
  \<^verbatim>\<open>delete_password\<close>, \<^verbatim>\<open>get_password\<close>, \<^verbatim>\<open>find_password\<close>, \<^verbatim>\<open>getCredentialsForItem\<close> and
  \<^verbatim>\<open>find_credentials\<close> return owning what they owned before (for the lookups, when the
  backend hands out a result only with \<^verbatim>\<open>errSecSuccess\<close>); \<^verbatim>\<open>set_password\<close> does so only
  when its update succeeds, and otherwise keeps the five references it created, and the
  four of \<^verbatim>\<open>AddPassword\<close> after a miss.
\<close>

lemma fresh_notin:
  assumes "\<forall>h\<in>set (owned w). h < next_ref w"
  shows "next_ref w \<notin> set (owned w)" "Suc (next_ref w) \<notin> set (owned w)"
    "Suc (Suc (next_ref w)) \<notin> set (owned w)" "Suc (Suc (Suc (next_ref w))) \<notin> set (owned w)"
    "Suc (Suc (Suc (Suc (next_ref w)))) \<notin> set (owned w)"
  using assms by auto

lemma errorStatusToString_owned:
  assumes "errorStatusToString B status w = Some (msg, w')"
  shows "next_ref w \<notin> set (owned w) \<longrightarrow> owned w' = owned w"
  using assms by (auto simp: errorStatusToString_Some remove1_append)

lemma delete_password_balanced:
  assumes "delete_password B service account error w = Some (r, error', w')"
      and "\<forall>h\<in>set (owned w). h < next_ref w"
  shows "owned w' = owned w"
  using assms(1) fresh_notin [OF assms(2)] delete_password_valid [OF assms(1)]
  by (auto simp add: delete_password_def cf_defs Let_def remove1_append
        dest!: errorStatusToString_owned
        split: prod.splits option.splits if_splits Option.bind_splits)

lemma get_password_balanced:
  assumes "get_password B service account password error w = Some (r, password', error', w')"
      and "\<forall>h\<in>set (owned w). h < next_ref w"
      and "itemCopyMatching B (get_query service account) (keychain w) = (status, result, k)"
      and "status = errSecSuccess \<or> result = None"
  shows "owned w' = owned w"
  using assms(1,3,4) fresh_notin [OF assms(2)] get_password_valid [OF assms(1)]
  by (auto simp add: get_password_def cf_defs Let_def remove1_append query_defs cstring_c_str
        errSecSuccess_def errSecItemNotFound_def
        dest!: errorStatusToString_owned
        split: prod.splits option.splits if_splits Option.bind_splits cftype.splits)

lemma find_password_balanced:
  assumes "find_password B service password error w = Some (r, password', error', w')"
      and "\<forall>h\<in>set (owned w). h < next_ref w"
      and "itemCopyMatching B (find_query service) (keychain w) = (status, result, k)"
      and "status = errSecSuccess \<or> result = None"
  shows "owned w' = owned w"
  using assms(1,3,4) fresh_notin [OF assms(2)] find_password_valid [OF assms(1)]
  by (auto simp add: find_password_def cf_defs Let_def remove1_append query_defs cstring_c_str
        errSecSuccess_def errSecItemNotFound_def
        dest!: errorStatusToString_owned
        split: prod.splits option.splits if_splits Option.bind_splits cftype.splits)

lemma getCredentialsForItem_balanced:
  assumes "getCredentialsForItem B item w = Some (cred, w')"
      and "\<forall>h\<in>set (owned w). h < next_ref w"
  shows "owned w' = owned w \<and> next_ref w \<le> next_ref w'"
  using assms(1) fresh_notin [OF assms(2)]
  by (auto simp add: getCredentialsForItem_def cf_defs Let_def remove1_append
        split: prod.splits option.splits if_splits Option.bind_splits cftype.splits)

lemma find_credentials_loop_balanced:
  "find_credentials_loop B resultArray idx resultCount credentials w = Some (credentials', w') \<Longrightarrow>
   \<forall>h\<in>set (owned w). h < next_ref w \<Longrightarrow>
   owned w' = owned w \<and> next_ref w \<le> next_ref w'"
proof (induction B resultArray idx resultCount credentials w
       rule: find_credentials_loop.induct)
  case (1 B resultArray idx resultCount credentials w)
  show ?case
  proof (cases "idx < resultCount")
    case False
    with "1.prems" show ?thesis
      by (simp add: find_credentials_loop.simps [of _ _ idx])
  next
    case True
    from find_credentials_loop_step [OF True "1.prems"(1)] obtain item cred w1 where
      a: "0 \<le> idx \<and> nat idx < length resultArray" "resultArray ! nat idx = CFDictionary item"
         "getCredentialsForItem B item w = Some (cred, w1)"
         "find_credentials_loop B resultArray (idx + 1) resultCount (credentials @ [cred]) w1
            = Some (credentials', w')"
      by blast
    from getCredentialsForItem_balanced [OF a(3) "1.prems"(2)]
    have b: "owned w1 = owned w" "next_ref w \<le> next_ref w1" by simp_all
    with "1.prems"(2) have "\<forall>h\<in>set (owned w1). h < next_ref w1" by auto
    from "1.IH" [OF True a(1) a(2) a(3) refl a(4) this] b show ?thesis by simp
  qed
qed

lemma find_credentials_balanced:
  assumes "find_credentials B service credentials error w = Some (r, credentials', error', w')"
      and "\<forall>h\<in>set (owned w). h < next_ref w"
      and "itemCopyMatching B (find_all_query service) (keychain w) = (status, result, k)"
      and "status = errSecSuccess \<or> result = None"
  shows "owned w' = owned w"
proof (cases "status = errSecSuccess")
  case False
  with assms(1,3,4) fresh_notin [OF assms(2)] find_credentials_valid [OF assms(1)] show ?thesis
    by (auto simp add: find_credentials_def cf_defs Let_def remove1_append query_defs cstring_c_str
        dest!: errorStatusToString_owned
        split: prod.splits option.splits if_splits Option.bind_splits cftype.splits)
next
  case True
  with assms(1,3) fresh_notin [OF assms(2)] find_credentials_valid [OF assms(1)]
  obtain resultArray w1 w2 where
    l: "find_credentials_loop B resultArray 0 (int_of_CFIndex (length resultArray))
          credentials w1
          = Some (credentials', w2)"
    and w1: "owned w1 = owned w @ [Suc (Suc (next_ref w))]" "next_ref w1 = Suc (Suc (Suc (next_ref w)))"
    and w': "CFRelease (Some (Suc (Suc (next_ref w)), CFArray resultArray)) w2 = Some w'"
    by (auto simp add: find_credentials_def cf_defs Let_def remove1_append query_defs cstring_c_str
        split: prod.splits option.splits if_splits Option.bind_splits cftype.splits)
  from w1 assms(2) have "\<forall>h\<in>set (owned w1). h < next_ref w1" by auto
  from find_credentials_loop_balanced [OF l this] w1
  have "owned w2 = owned w @ [Suc (Suc (next_ref w))]" by simp
  with w' fresh_notin [OF assms(2)] show ?thesis
    by (auto simp: CFRelease_def remove1_append)
qed

lemma set_password_owned:
  assumes "set_password B service account password error w = Some (r, error', w')"
      and "\<forall>h\<in>set (owned w). h < next_ref w"
      and "itemUpdate B (key_query service account) (password_update password) (keychain w)
             = (status, k)"
  shows "owned w' =
           owned w @
           (if status = errSecSuccess then []
            else if status = errSecItemNotFound
            then map (\<lambda>i. next_ref w + i) [0..<9]
            else map (\<lambda>i. next_ref w + i) [0..<5])"
proof -
  from assms(2) have n: "\<And>m. next_ref w \<le> m \<Longrightarrow> m \<notin> set (owned w)" by auto
  have e: "[0..<9] = [0,1,2,3,4,5,6,7,8::nat]" "[0..<5] = [0,1,2,3,4::nat]"
    by (simp_all add: upt_rec)
  from assms(1,3) set_password_valid [OF assms(1)] show ?thesis
    by (auto simp add: set_password_def AddPassword_def cf_defs Let_def remove1_append
          query_defs cstring_c_str take_c_str e errorStatusToString_Some n
          errSecSuccess_def errSecItemNotFound_def
          split: prod.splits option.splits if_splits Option.bind_splits)
qed

section \<open>The reference backend: what the enumeration can see\<close>

text \<open>
  On the reference backend, the items that the query of \<^verbatim>\<open>find_credentials\<close> matches are
  the same before and after a \<^verbatim>\<open>set_password\<close>, for every service, account and state.
\<close>

lemma set_password_keychain:
  assumes "set_password keychain_backend service account password error w = Some (r, error', w')"
  shows "keychain w' =
           (if list_ex (matches (key_query service account)) (keychain w)
            then map (\<lambda>item. if matches (key_query service account) item
                              then dict_override item (password_update password) else item)
                   (keychain w)
            else keychain w @ [add_attributes service account password])"
proof -
  from set_password_valid [OF assms]
  have v: "validCString keychain_backend (cstring service)"
    "validCString keychain_backend (cstring account)"
    by simp_all
  show ?thesis
  proof (cases "list_ex (matches (key_query service account)) (keychain w)")
    case True
    then have "itemUpdate keychain_backend (key_query service account)
                 (password_update password) (keychain w)
               = (errSecSuccess,
                  map (\<lambda>item. if matches (key_query service account) item
                                then dict_override item (password_update password) else item)
                    (keychain w))"
      by (simp add: backend_simps kc_itemUpdate_def)
    from set_password_updated [OF v this, of error] assms True show ?thesis by auto
  next
    case False
    then have upd: "itemUpdate keychain_backend (key_query service account)
                      (password_update password) (keychain w)
                    = (errSecItemNotFound, keychain w)"
      by (simp add: backend_simps kc_itemUpdate_def)
    from False
    have "itemAdd keychain_backend (add_attributes service account password) (keychain w)
            = (errSecSuccess, keychain w @ [add_attributes service account password])"
      by (simp add: backend_simps kc_itemAdd_def matches_add_attributes [abs_def])
    from set_password_added [OF v upd this, of error] assms False show ?thesis by auto
  qed
qed

lemma matches_find_all_override:
  "matches (find_all_query service')
     (if matches (key_query service account) item
      then dict_override item (password_update password) else item)
   = matches (find_all_query service') item"
  by (auto simp: matches_def find_all_query_def key_query_def search_keys_def
        map_of_dict_override_other)

lemma unmatched_by_find_all:
  "matches (find_all_query service') item \<Longrightarrow> \<not> matches (key_query service account) item"
  by (auto simp: matches_def find_all_query_def key_query_def search_keys_def)

lemma set_password_hidden_from_enumeration:
  assumes "set_password keychain_backend service account password error w = Some (r, error', w')"
  shows "filter (matches (find_all_query service')) (keychain w')
           = filter (matches (find_all_query service')) (keychain w)"
proof -
  have "filter (matches (find_all_query service'))
          (map (\<lambda>item. if matches (key_query service account) item
                        then dict_override item (password_update password) else item) kc)
        = filter (matches (find_all_query service')) kc" for kc
    by (induction kc) (auto simp: matches_find_all_override unmatched_by_find_all)
  moreover have "\<not> matches (find_all_query service') (add_attributes service account password)"
    by (simp add: matches_def find_all_query_def add_attributes_def search_keys_def)
  ultimately show ?thesis
    using set_password_keychain [OF assms] by simp
qed

section \<open>The claims\<close>

subsection \<open>C1: enumeration after set\<close>

text \<open>
  C1 says that after credentials are stored with \<^verbatim>\<open>set_password\<close> under one service,
  \<^verbatim>\<open>find_credentials\<close> returns one (account, secret) pair for each of them. On the
  reference backend, starting from an empty keychain: two credentials are stored under
  the service \<^verbatim>\<open>mail\<close> and both are read back by \<^verbatim>\<open>get_password\<close>, yet
  \<^verbatim>\<open>find_credentials\<close> reports that nothing was found and returns no pair.
  \<^verbatim>\<open>set_password\<close> and \<^verbatim>\<open>AddPassword\<close> write items of class
  \<^verbatim>\<open>kSecClassInternetPassword\<close> keyed by \<^verbatim>\<open>kSecAttrServer\<close>, while
  \<^verbatim>\<open>find_credentials\<close> and \<^verbatim>\<open>getCredentialsForItem\<close> ask for
  \<^verbatim>\<open>kSecClassGenericPassword\<close> items keyed by \<^verbatim>\<open>kSecAttrService\<close>
  (lemma \<open>set_password_hidden_from_enumeration\<close> has it for every input).
\<close>

theorem enumeration_misses_stored_credentials:
  "do {
     (r1, e, w) \<leftarrow> set_password keychain_backend ''mail'' ''alice'' ''p@ss1'' [] (start []);
     (r2, e, w) \<leftarrow> set_password keychain_backend ''mail'' ''bob'' ''p@ss2'' e w;
     (g1, p1, e, w) \<leftarrow> get_password keychain_backend ''mail'' ''alice'' [] e w;
     (g2, p2, e, w) \<leftarrow> get_password keychain_backend ''mail'' ''bob'' [] e w;
     (r3, credentials, e, w) \<leftarrow> find_credentials keychain_backend ''mail'' [] e w;
     Some ((r1, r2), (g1, p1), (g2, p2), (r3, credentials))
   } = Some ((SUCCESS, SUCCESS), (SUCCESS, ''p@ss1''), (SUCCESS, ''p@ss2''),
             (FAIL_NONFATAL, []))"
  by code_simp

subsection \<open>C2: release of the objects a call creates\<close>

text \<open>
  C2 says that every operation releases each object it created, once, on every exit
  path. Storing a new credential in an empty keychain ends with nine references still
  owned: the five objects \<^verbatim>\<open>set_password\<close> created before its early return into
  \<^verbatim>\<open>AddPassword\<close> (references 0 to 4), and the four objects of \<^verbatim>\<open>AddPassword\<close>,
  which has no release at all (references 5 to 8). Lemma \<open>set_password_owned\<close> has it
  for every backend; the other operations release what they create.
\<close>

theorem set_password_leaves_references_owned:
  "map_option (\<lambda>(r, e, w). (r, owned w))
     (set_password keychain_backend ''mail'' ''alice'' ''p@ss1'' [] (start []))
   = Some (SUCCESS, [0, 1, 2, 3, 4, 5, 6, 7, 8])"
  by code_simp

subsection \<open>C3: set, then get\<close>

text \<open>
  On the reference backend, a service and an account that are text are stored, and the
  key then finds the secret.
\<close>

lemma set_password_stores:
  assumes "utf8 (cstring service)" and "utf8 (cstring account)"
  shows "\<exists>w1. set_password keychain_backend service account password error w
                = Some (SUCCESS, error, w1) \<and>
              itemCopyMatching keychain_backend (get_query service account) (keychain w1)
                = (errSecSuccess, Some (CFData password), keychain w1)"
proof (cases "list_ex (matches (key_query service account)) (keychain w)")
  note v = assms [folded backend_simps(5)]
  case True
  then have upd:
    "itemUpdate keychain_backend (key_query service account) (password_update password)
       (keychain w)
     = (errSecSuccess,
        snd (kc_itemUpdate (key_query service account) (password_update password)
               (keychain w)))"
    by (simp add: backend_simps kc_itemUpdate_def)
  from set_password_updated [OF v upd] obtain w1
    where s: "set_password keychain_backend service account password error w
                = Some (SUCCESS, error, w1)"
      and k: "keychain w1
                = snd (kc_itemUpdate (key_query service account) (password_update password)
                         (keychain w))"
    by blast
  from lookup_after_update [OF True] k
  have "itemCopyMatching keychain_backend (get_query service account) (keychain w1)
          = (errSecSuccess, Some (CFData password), keychain w1)"
    by (simp add: backend_simps)
  with s show ?thesis by blast
next
  note v = assms [folded backend_simps(5)]
  case False
  then have upd:
    "itemUpdate keychain_backend (key_query service account) (password_update password)
       (keychain w)
     = (errSecItemNotFound, keychain w)"
    by (simp add: backend_simps kc_itemUpdate_def)
  from False have add:
    "itemAdd keychain_backend (add_attributes service account password) (keychain w)
     = (errSecSuccess, snd (kc_itemAdd (add_attributes service account password) (keychain w)))"
    by (simp add: backend_simps kc_itemAdd_def matches_add_attributes [abs_def])
  from set_password_added [OF v upd add] obtain w1
    where s: "set_password keychain_backend service account password error w
                = Some (SUCCESS, error, w1)"
      and k: "keychain w1
                = snd (kc_itemAdd (add_attributes service account password) (keychain w))"
    by blast
  from lookup_after_add [OF False] k
  have "itemCopyMatching keychain_backend (get_query service account) (keychain w1)
          = (errSecSuccess, Some (CFData password), keychain w1)"
    by (simp add: backend_simps)
  with s show ?thesis by blast
qed

text \<open>
  C3, the round trip, on the reference backend: for every service, account, secret and
  state, when \<^verbatim>\<open>set_password\<close> returns \<^verbatim>\<open>SUCCESS\<close>, \<^verbatim>\<open>get_password\<close> on the same key in
  the state it leaves returns \<^verbatim>\<open>SUCCESS\<close> with exactly the secret that was stored,
  whatever the output string held before. And \<^verbatim>\<open>set_password\<close> does return \<^verbatim>\<open>SUCCESS\<close>
  whenever the service and the account are well-formed UTF-8 up to their first NUL.
\<close>

theorem set_then_get_round_trip:
  "(set_password keychain_backend service account password error w
      = Some (SUCCESS, error1, w1) \<longrightarrow>
      (\<exists>w2. get_password keychain_backend service account password0 error1 w1
               = Some (SUCCESS, password, error1, w2))) \<and>
   (utf8 (cstring service) \<and> utf8 (cstring account) \<longrightarrow>
      (\<exists>w1. set_password keychain_backend service account password error w
               = Some (SUCCESS, error, w1)))"
proof (rule conjI)
  show "set_password keychain_backend service account password error w
          = Some (SUCCESS, error1, w1) \<longrightarrow>
        (\<exists>w2. get_password keychain_backend service account password0 error1 w1
                 = Some (SUCCESS, password, error1, w2))"
  proof
    assume run: "set_password keychain_backend service account password error w
                   = Some (SUCCESS, error1, w1)"
    from set_password_valid [OF run]
    have v: "validCString keychain_backend (cstring service)"
      "validCString keychain_backend (cstring account)"
      by simp_all
    then have u: "utf8 (cstring service)" "utf8 (cstring account)"
      by (simp_all add: backend_simps)
    from set_password_stores [OF u, of password error w] run
    have "itemCopyMatching keychain_backend (get_query service account) (keychain w1)
            = (errSecSuccess, Some (CFData password), keychain w1)"
      by auto
    from get_password_found [OF v this]
    show "\<exists>w2. get_password keychain_backend service account password0 error1 w1
                 = Some (SUCCESS, password, error1, w2)"
      by blast
  qed
next
  show "utf8 (cstring service) \<and> utf8 (cstring account) \<longrightarrow>
        (\<exists>w1. set_password keychain_backend service account password error w
                 = Some (SUCCESS, error, w1))"
    using set_password_stores [of service account password error w] by blast
qed

text \<open>
  Witness for C3: a secret with a NUL and a byte that is not UTF-8 in it, stored in an
  empty keychain and read back.
\<close>

theorem set_then_get_round_trip_witness:
  "\<exists>w1 w2.
     set_password keychain_backend ''mail'' ''alice'' [CHR ''p'', CHR 0x00, CHR 0xFF] []
       (start [])
       = Some (SUCCESS, [], w1) \<and>
     get_password keychain_backend ''mail'' ''alice'' ''before'' [] w1
       = Some (SUCCESS, [CHR ''p'', CHR 0x00, CHR 0xFF], [], w2)"
proof -
  note T = set_then_get_round_trip [where service = "''mail''" and account = "''alice''" and
      password = "[CHR ''p'', CHR 0x00, CHR 0xFF]" and error = "[]" and w = "start []"]
  have "utf8 (cstring ''mail'') \<and> utf8 (cstring ''alice'')"
    by (simp add: cstring_def NUL_def byte_def)
  from T [THEN conjunct2, THEN mp, OF this] obtain w1 where
    s: "set_password keychain_backend ''mail'' ''alice'' [CHR ''p'', CHR 0x00, CHR 0xFF] []
          (start [])
        = Some (SUCCESS, [], w1)"
    by blast
  from T [THEN conjunct1, THEN mp, OF s] s show ?thesis by blast
qed

subsection \<open>C4: update, then insert on a miss\<close>

text \<open>
  C4 says that \<^verbatim>\<open>set_password\<close> first attempts an update, falls back to an insert on a
  miss, and yields an error on any other failure. Two calls that do neither: a service
  that is not UTF-8 (\<^verbatim>\<open>CFStringCreateWithCString\<close> returns NULL, which
  \<^verbatim>\<open>CFDictionaryCreate\<close> is given as a value before any request is made), and an update
  refused with a status for which the system has no message (\<^verbatim>\<open>errorStatusToString\<close>
  releases the NULL). Neither call returns.
\<close>

theorem set_password_update_then_insert_counterexample:
  "set_password keychain_backend [CHR 0xFF] ''alice'' ''p@ss1'' [] (start []) = None \<and>
   set_password (refusing_backend (- 50)) ''mail'' ''alice'' ''p@ss1'' [] (start []) = None"
  by code_simp

text \<open>
  C4, amended: for every backend, and a service and an account that
  \<^verbatim>\<open>CFStringCreateWithCString\<close> accepts, \<^verbatim>\<open>set_password\<close> first sends an update for the
  exact key (\<open>status\<close> is the backend's answer, \<open>k\<close> the store it leaves). If and only if
  the answer is \<^verbatim>\<open>errSecItemNotFound\<close>, one insert follows (\<open>status'\<close> is the backend's
  answer to it); no other request is made. When the system has a message for a failing
  status, the call returns: \<^verbatim>\<open>SUCCESS\<close> when the deciding status, the insert's after a
  miss and the update's otherwise, is \<^verbatim>\<open>errSecSuccess\<close>, and \<^verbatim>\<open>FAIL_ERROR\<close> when it is
  anything else.
\<close>

theorem set_password_update_then_insert:
  assumes svc: "validCString B (cstring service)"
      and acct: "validCString B (cstring account)"
      and upd: "itemUpdate B (key_query service account) (password_update password) (keychain w)
                  = (status, k)"
      and add: "itemAdd B (add_attributes service account password) k = (status', k')"
      and final: "final = (if status = errSecItemNotFound then status' else status)"
      and msg: "final = errSecSuccess \<or> copyErrorMessageString B final \<noteq> None"
  shows "\<exists>error' w'.
           set_password B service account password error w
             = Some (if final = errSecSuccess then SUCCESS else FAIL_ERROR, error', w') \<and>
           calls w' = calls w @ Update (key_query service account) (password_update password)
                        # (if status = errSecItemNotFound
                           then [Add (add_attributes service account password)] else []) \<and>
           keychain w' = (if status = errSecItemNotFound then k' else k)"
proof (cases "final = errSecSuccess")
  case True
  with svc acct upd add final show ?thesis
    by (auto simp: set_password_def AddPassword_def cf_defs Let_def cstring_c_str take_c_str
          query_defs errSecItemNotFound_def errSecSuccess_def)
next
  case False
  with msg obtain m where "copyErrorMessageString B final = Some m" by auto
  with False svc acct upd add final show ?thesis
    by (auto simp: set_password_def AddPassword_def cf_defs Let_def cstring_c_str take_c_str
          query_defs errSecItemNotFound_def errSecSuccess_def errorStatusToString_def)
qed

text \<open>
  Witness for C4: in an empty keychain the update misses and the insert succeeds; a
  keychain that refuses the update gets no insert.
\<close>

theorem set_password_update_then_insert_witness:
  "(\<exists>error' w'.
      set_password keychain_backend ''mail'' ''alice'' ''p@ss1'' [] (start [])
        = Some (SUCCESS, error', w') \<and>
      calls w' = [Update (key_query ''mail'' ''alice'') (password_update ''p@ss1''),
                  Add (add_attributes ''mail'' ''alice'' ''p@ss1'')] \<and>
      keychain w' = [add_attributes ''mail'' ''alice'' ''p@ss1'']) \<and>
   (\<exists>error' w'.
      set_password (refusing_backend errSecAuthFailed) ''mail'' ''alice'' ''p@ss1'' []
        (start [])
        = Some (FAIL_ERROR, error', w') \<and>
      calls w' = [Update (key_query ''mail'' ''alice'') (password_update ''p@ss1'')] \<and>
      keychain w' = [])"
proof -
  have v: "validCString keychain_backend (cstring ''mail'')"
    "validCString keychain_backend (cstring ''alice'')"
    by (simp_all add: backend_simps cstring_def NUL_def byte_def)
  have v2: "validCString (refusing_backend errSecAuthFailed) (cstring ''mail'')"
    "validCString (refusing_backend errSecAuthFailed) (cstring ''alice'')"
    by (simp_all add: refusing_backend_def backend_simps cstring_def NUL_def byte_def)
  have upd: "itemUpdate keychain_backend (key_query ''mail'' ''alice'')
               (password_update ''p@ss1'') (keychain (start []))
             = (errSecItemNotFound, [])"
    by (simp add: backend_simps kc_itemUpdate_def start_def)
  have add: "itemAdd keychain_backend (add_attributes ''mail'' ''alice'' ''p@ss1'') []
               = (errSecSuccess, [add_attributes ''mail'' ''alice'' ''p@ss1''])"
    by (simp add: backend_simps kc_itemAdd_def)
  have upd2: "itemUpdate (refusing_backend errSecAuthFailed) (key_query ''mail'' ''alice'')
                (password_update ''p@ss1'') (keychain (start []))
              = (errSecAuthFailed, [])"
    by (simp add: refusing_backend_def start_def)
  have add2: "itemAdd (refusing_backend errSecAuthFailed)
                (add_attributes ''mail'' ''alice'' ''p@ss1'') []
              = (errSecAuthFailed, [])"
    by (simp add: refusing_backend_def)
  have msg2: "copyErrorMessageString (refusing_backend errSecAuthFailed) errSecAuthFailed
                \<noteq> None"
    by (simp add: refusing_backend_def keychain_backend_def kc_copyErrorMessageString_def
          errSecAuthFailed_def errSecItemNotFound_def errSecDuplicateItem_def)
  from set_password_update_then_insert [OF v upd add refl, of "[]"]
       set_password_update_then_insert [OF v2 upd2 add2 refl, of "[]"] msg2
  show ?thesis
    by (simp add: start_def errSecAuthFailed_def errSecItemNotFound_def errSecSuccess_def)
qed

subsection \<open>C5: a record that does not exist\<close>

lemma kc_lookup_missing:
  assumes "\<not> list_ex (matches (key_query service account)) kc"
  shows "kc_itemCopyMatching (get_query service account) kc = (errSecItemNotFound, None, kc)"
proof -
  from assms have "filter (matches (key_query service account)) kc = []"
    by (auto simp: list_ex_iff filter_empty_conv)
  then show ?thesis
    by (simp add: kc_itemCopyMatching_def matches_get_query [abs_def])
qed

lemma kc_find_missing:
  assumes "\<not> list_ex (matches (find_query service)) kc"
  shows "kc_itemCopyMatching (find_query service) kc = (errSecItemNotFound, None, kc)"
proof -
  from assms have "filter (matches (find_query service)) kc = []"
    by (auto simp: list_ex_iff filter_empty_conv)
  then show ?thesis
    by (simp add: kc_itemCopyMatching_def)
qed

lemma kc_delete_twice:
  assumes "list_ex (matches query) kc"
  shows "kc_itemDelete query kc = (errSecSuccess, filter (\<lambda>item. \<not> matches query item) kc)"
    and "kc_itemDelete query (filter (\<lambda>item. \<not> matches query item) kc)
           = (errSecItemNotFound, filter (\<lambda>item. \<not> matches query item) kc)"
  using assms by (simp_all add: kc_itemDelete_def list_ex_iff)

text \<open>
  C5 says that a lookup or a deletion of a key with no record returns the non-fatal
  failure. In an empty keychain, for a service and an account that are not UTF-8,
  \<^verbatim>\<open>get_password\<close>, \<^verbatim>\<open>delete_password\<close> and \<^verbatim>\<open>find_password\<close> do not return: the NULL of
  \<^verbatim>\<open>CFStringCreateWithCString\<close> is given to \<^verbatim>\<open>CFDictionaryCreate\<close> as a value.
\<close>

theorem not_found_is_nonfatal_counterexample:
  "get_password keychain_backend [CHR 0xFF] [CHR 0xC3] ''before'' [] (start []) = None \<and>
   delete_password keychain_backend [CHR 0xFF] [CHR 0xC3] [] (start []) = None \<and>
   find_password keychain_backend [CHR 0xFF] ''before'' [] (start []) = None"
  by code_simp

text \<open>
  C5, amended: for every backend, and a service and an account that
  \<^verbatim>\<open>CFStringCreateWithCString\<close> accepts, when the backend answers \<^verbatim>\<open>errSecItemNotFound\<close>,
  \<^verbatim>\<open>get_password\<close>, \<^verbatim>\<open>delete_password\<close>, \<^verbatim>\<open>find_password\<close> and \<^verbatim>\<open>find_credentials\<close> return
  \<^verbatim>\<open>FAIL_NONFATAL\<close> and leave the outputs as they were. On the reference backend, for a
  service and an account that are well-formed UTF-8 up to their first NUL, a key that
  matches no stored item gives \<^verbatim>\<open>FAIL_NONFATAL\<close>, and deleting a key that matches a
  stored item twice in a row gives \<^verbatim>\<open>SUCCESS\<close>, then \<^verbatim>\<open>FAIL_NONFATAL\<close>.
\<close>

theorem not_found_is_nonfatal:
  "(validCString B (cstring service) \<and> validCString B (cstring account) \<and>
    itemCopyMatching B (get_query service account) (keychain w) = (errSecItemNotFound, result, k)
      \<longrightarrow> (\<exists>w'. get_password B service account password error w
                   = Some (FAIL_NONFATAL, password, error, w'))) \<and>
   (validCString B (cstring service) \<and> validCString B (cstring account) \<and>
    itemDelete B (key_query service account) (keychain w) = (errSecItemNotFound, k)
      \<longrightarrow> (\<exists>w'. delete_password B service account error w = Some (FAIL_NONFATAL, error, w'))) \<and>
   (validCString B (cstring service) \<and>
    itemCopyMatching B (find_query service) (keychain w) = (errSecItemNotFound, result, k)
      \<longrightarrow> (\<exists>w'. find_password B service password error w
                   = Some (FAIL_NONFATAL, password, error, w'))) \<and>
   (validCString B (cstring service) \<and>
    itemCopyMatching B (find_all_query service) (keychain w) = (errSecItemNotFound, result, k)
      \<longrightarrow> (\<exists>w'. find_credentials B service credentials error w
                   = Some (FAIL_NONFATAL, credentials, error, w'))) \<and>
   (utf8 (cstring service) \<and> utf8 (cstring account) \<and>
    \<not> list_ex (matches (key_query service account)) (keychain v)
      \<longrightarrow> (\<exists>v'. get_password keychain_backend service account password error v
                   = Some (FAIL_NONFATAL, password, error, v')) \<and>
          (\<exists>v'. delete_password keychain_backend service account error v
                   = Some (FAIL_NONFATAL, error, v'))) \<and>
   (utf8 (cstring service) \<and> \<not> list_ex (matches (find_query service)) (keychain v)
      \<longrightarrow> (\<exists>v'. find_password keychain_backend service password error v
                   = Some (FAIL_NONFATAL, password, error, v'))) \<and>
   (utf8 (cstring service) \<and> utf8 (cstring account) \<and>
    list_ex (matches (key_query service account)) (keychain u)
      \<longrightarrow> (\<exists>u1 u2. delete_password keychain_backend service account error u
                      = Some (SUCCESS, error, u1) \<and>
                    delete_password keychain_backend service account error u1
                      = Some (FAIL_NONFATAL, error, u2)))"
proof (intro conjI impI; elim conjE)
  assume "validCString B (cstring service)" "validCString B (cstring account)"
    "itemCopyMatching B (get_query service account) (keychain w) = (errSecItemNotFound, result, k)"
  from get_password_missing [OF this]
  show "\<exists>w'. get_password B service account password error w
               = Some (FAIL_NONFATAL, password, error, w')"
    by blast
next
  assume "validCString B (cstring service)" "validCString B (cstring account)"
    "itemDelete B (key_query service account) (keychain w) = (errSecItemNotFound, k)"
  from delete_password_missing [OF this]
  show "\<exists>w'. delete_password B service account error w = Some (FAIL_NONFATAL, error, w')"
    by blast
next
  assume "validCString B (cstring service)"
    "itemCopyMatching B (find_query service) (keychain w) = (errSecItemNotFound, result, k)"
  from find_password_missing [OF this]
  show "\<exists>w'. find_password B service password error w = Some (FAIL_NONFATAL, password, error, w')"
    by blast
next
  assume "validCString B (cstring service)"
    "itemCopyMatching B (find_all_query service) (keychain w) = (errSecItemNotFound, result, k)"
  from find_credentials_missing [OF this]
  show "\<exists>w'. find_credentials B service credentials error w
               = Some (FAIL_NONFATAL, credentials, error, w')"
    by blast
next
  assume u: "utf8 (cstring service)" "utf8 (cstring account)"
    and none: "\<not> list_ex (matches (key_query service account)) (keychain v)"
  note val = u [folded backend_simps(5)]
  from none have "itemCopyMatching keychain_backend (get_query service account) (keychain v)
               = (errSecItemNotFound, None, keychain v)"
    by (simp add: backend_simps kc_lookup_missing)
  from get_password_missing [OF val this]
  show "\<exists>v'. get_password keychain_backend service account password error v
               = Some (FAIL_NONFATAL, password, error, v')"
    by blast
next
  assume u: "utf8 (cstring service)" "utf8 (cstring account)"
    and none: "\<not> list_ex (matches (key_query service account)) (keychain v)"
  note val = u [folded backend_simps(5)]
  from none have "itemDelete keychain_backend (key_query service account) (keychain v)
               = (errSecItemNotFound, keychain v)"
    by (simp add: backend_simps kc_itemDelete_def)
  from delete_password_missing [OF val this]
  show "\<exists>v'. delete_password keychain_backend service account error v
               = Some (FAIL_NONFATAL, error, v')"
    by blast
next
  assume u: "utf8 (cstring service)"
    and "\<not> list_ex (matches (find_query service)) (keychain v)"
  note val = u [folded backend_simps(5)]
  from \<open>\<not> list_ex (matches (find_query service)) (keychain v)\<close>
  have "itemCopyMatching keychain_backend (find_query service) (keychain v)
               = (errSecItemNotFound, None, keychain v)"
    by (simp add: backend_simps kc_find_missing)
  from find_password_missing [OF val this]
  show "\<exists>v'. find_password keychain_backend service password error v
               = Some (FAIL_NONFATAL, password, error, v')"
    by blast
next
  assume u: "utf8 (cstring service)" "utf8 (cstring account)"
    and some: "list_ex (matches (key_query service account)) (keychain u)"
  note val = u [folded backend_simps(5)]
  from kc_delete_twice(1) [OF some]
  have "itemDelete keychain_backend (key_query service account) (keychain u)
          = (errSecSuccess, filter (\<lambda>item. \<not> matches (key_query service account) item) (keychain u))"
    by (simp add: backend_simps)
  from delete_password_deleted [OF val this] obtain u1 where
    d1: "delete_password keychain_backend service account error u = Some (SUCCESS, error, u1)"
    and k1: "keychain u1 = filter (\<lambda>item. \<not> matches (key_query service account) item) (keychain u)"
    by blast
  from kc_delete_twice(2) [OF some] k1
  have "itemDelete keychain_backend (key_query service account) (keychain u1)
          = (errSecItemNotFound, keychain u1)"
    by (simp add: backend_simps)
  from delete_password_missing [OF val this] d1
  show "\<exists>u1 u2. delete_password keychain_backend service account error u
                   = Some (SUCCESS, error, u1) \<and>
                 delete_password keychain_backend service account error u1
                   = Some (FAIL_NONFATAL, error, u2)"
    by blast
qed

text \<open>
  Witness for C5: the four operations on an empty keychain, and two deletions of a
  stored credential.
\<close>

theorem not_found_is_nonfatal_witness:
  "(\<exists>w'. get_password keychain_backend ''mail'' ''alice'' ''before'' [] (start [])
            = Some (FAIL_NONFATAL, ''before'', [], w')) \<and>
   (\<exists>w'. delete_password keychain_backend ''mail'' ''alice'' [] (start [])
            = Some (FAIL_NONFATAL, [], w')) \<and>
   (\<exists>w'. find_password keychain_backend ''mail'' ''before'' [] (start [])
            = Some (FAIL_NONFATAL, ''before'', [], w')) \<and>
   (\<exists>w'. find_credentials keychain_backend ''mail'' [] [] (start [])
            = Some (FAIL_NONFATAL, [], [], w')) \<and>
   (\<exists>u1 u2. delete_password keychain_backend ''mail'' ''alice'' []
                (start [add_attributes ''mail'' ''alice'' ''p@ss1''])
              = Some (SUCCESS, [], u1) \<and>
            delete_password keychain_backend ''mail'' ''alice'' [] u1
              = Some (FAIL_NONFATAL, [], u2))"
proof -
  have u: "utf8 (cstring ''mail'')" "utf8 (cstring ''alice'')"
    by (simp_all add: cstring_def NUL_def byte_def)
  note val = u [folded backend_simps(5)]
  have h1: "itemCopyMatching keychain_backend (get_query ''mail'' ''alice'') (keychain (start []))
              = (errSecItemNotFound, None, [])"
    by (simp add: backend_simps kc_itemCopyMatching_def start_def)
  have h2: "itemDelete keychain_backend (key_query ''mail'' ''alice'') (keychain (start []))
              = (errSecItemNotFound, [])"
    by (simp add: backend_simps kc_itemDelete_def start_def)
  have h3: "itemCopyMatching keychain_backend (find_query ''mail'') (keychain (start []))
              = (errSecItemNotFound, None, [])"
    by (simp add: backend_simps kc_itemCopyMatching_def start_def)
  have h4: "itemCopyMatching keychain_backend (find_all_query ''mail'') (keychain (start []))
              = (errSecItemNotFound, None, [])"
    by (simp add: backend_simps kc_itemCopyMatching_def start_def)
  have h5: "\<not> list_ex (matches (key_query ''mail'' ''alice'')) (keychain (start []))"
    by (simp add: start_def)
  have h6: "\<not> list_ex (matches (find_query ''mail'')) (keychain (start []))"
    by (simp add: start_def)
  have h7: "list_ex (matches (key_query ''mail'' ''alice''))
              (keychain (start [add_attributes ''mail'' ''alice'' ''p@ss1'']))"
    by (simp add: start_def matches_def query_defs search_keys_def)
  from not_found_is_nonfatal [where B = keychain_backend and service = "''mail''" and
      account = "''alice''" and password = "''before''" and error = "[]" and
      credentials = "[]" and w = "start []" and result = None and k = "[]" and
      v = "start []" and u = "start [add_attributes ''mail'' ''alice'' ''p@ss1'']"]
    u val h1 h2 h3 h4 h5 h6 h7
  show ?thesis by blast
qed

subsection \<open>C6: what a lookup decodes\<close>

lemma get_password_SUCCESS:
  assumes "get_password B service account password error w
             = Some (SUCCESS, password', error', w')"
  shows "itemCopyMatching B (get_query service account) (keychain w)
           = (errSecSuccess, Some (CFData password'), keychain w') \<and>
         calls w' = calls w @ [CopyMatching (get_query service account)]"
proof -
  obtain status result k where
    cm: "itemCopyMatching B (get_query service account) (keychain w) = (status, result, k)"
    by (cases "itemCopyMatching B (get_query service account) (keychain w)")
  from assms cm get_password_valid [OF assms] show ?thesis
    by (clarsimp simp add: get_password_def cf_defs Let_def query_defs cstring_c_str
          std_string_n_def
          split: prod.splits option.splits if_splits cftype.splits Option.bind_splits)
qed

lemma find_password_SUCCESS:
  assumes "find_password B service password error w = Some (SUCCESS, password', error', w')"
  shows "itemCopyMatching B (find_query service) (keychain w)
           = (errSecSuccess, Some (CFData password'), keychain w') \<and>
         calls w' = calls w @ [CopyMatching (find_query service)]"
proof -
  obtain status result k where
    cm: "itemCopyMatching B (find_query service) (keychain w) = (status, result, k)"
    by (cases "itemCopyMatching B (find_query service) (keychain w)")
  from assms cm find_password_valid [OF assms] show ?thesis
    by (clarsimp simp add: find_password_def cf_defs Let_def query_defs cstring_c_str
          std_string_n_def
          split: prod.splits option.splits if_splits cftype.splits Option.bind_splits)
qed

text \<open>
  The enumeration of an array that \<^verbatim>\<open>int\<close> can count: one credential for each element,
  behind what the vector held.
\<close>

lemma find_credentials_counts:
  assumes run: "find_credentials B service credentials error w
                  = Some (r, credentials', error', w')"
      and outer: "itemCopyMatching B (find_all_query service) (keychain w)
                    = (errSecSuccess, Some (CFArray resultArray), k)"
      and small: "length resultArray < 2147483648"
  shows "r = SUCCESS \<and>
         length credentials' = length credentials + length resultArray \<and>
         take (length credentials) credentials' = credentials"
proof -
  from find_credentials_found [OF run outer] obtain v1 v2 where
    r: "r = SUCCESS"
    and l: "find_credentials_loop B resultArray 0 (int_of_CFIndex (length resultArray))
              credentials v1
            = Some (credentials', v2)"
    by blast
  from l int_of_CFIndex_small [OF small]
  have l': "find_credentials_loop B resultArray 0 (int (length resultArray)) credentials v1
              = Some (credentials', v2)"
    by simp
  have "(0::int) \<le> int (length resultArray)" by simp
  from find_credentials_loop_extends [OF l' this] obtain ext where
    "credentials' = credentials @ ext" "length ext = length resultArray"
    by auto
  with r show ?thesis by simp
qed

text \<open>
  On a backend whose lookups leave the store as it is, the credential at the position of
  an item is what \<^verbatim>\<open>getCredentialsForItem\<close> returns for it in the store of the call.
\<close>

lemma find_credentials_enumerates:
  assumes keep: "\<forall>q k. snd (snd (itemCopyMatching B q k)) = k"
      and run: "find_credentials B service credentials error w
                  = Some (r, credentials', error', w')"
      and outer: "itemCopyMatching B (find_all_query service) (keychain w)
                    = (errSecSuccess, Some (CFArray resultArray), k)"
      and small: "length resultArray < 2147483648"
      and j: "j < length resultArray"
  shows "\<exists>item v v'. resultArray ! j = CFDictionary item \<and> keychain v = keychain w \<and>
           getCredentialsForItem B item v = Some (credentials' ! (length credentials + j), v')"
proof -
  from keep have "snd (snd (itemCopyMatching B (find_all_query service) (keychain w)))
                    = keychain w"
    by blast
  with outer have k: "k = keychain w" by simp
  from find_credentials_found [OF run outer] obtain v1 v2 where
    l: "find_credentials_loop B resultArray 0 (int_of_CFIndex (length resultArray))
          credentials v1
        = Some (credentials', v2)"
    and k1: "keychain v1 = k"
    by blast
  from l int_of_CFIndex_small [OF small]
  have l': "find_credentials_loop B resultArray 0 (int (length resultArray)) credentials v1
              = Some (credentials', v2)"
    by simp
  have inv: "\<forall>item v cred v'. keychain v = keychain w \<longrightarrow>
               getCredentialsForItem B item v = Some (cred, v') \<longrightarrow> keychain v' = keychain w"
  proof (intro allI impI)
    fix item v cred v'
    assume a: "keychain v = keychain w" "getCredentialsForItem B item v = Some (cred, v')"
    from getCredentialsForItem_keychain [OF keep a(2)] a(1)
    show "keychain v' = keychain w" by simp
  qed
  from j have lt: "int j < int (length resultArray)" by simp
  from k1 k have p: "keychain v1 = keychain w" by simp
  have z: "(0::int) \<le> 0" "(0::int) \<le> int j" by simp_all
  from find_credentials_loop_nth [where P = "\<lambda>v. keychain v = keychain w",
      OF l' z(1) z(2) lt p inv]
  obtain item v v' where
    "resultArray ! nat (int j) = CFDictionary item" "keychain v = keychain w"
    "getCredentialsForItem B item v
       = Some (credentials' ! (length credentials + nat (int j - 0)), v')"
    by blast
  then have "resultArray ! j = CFDictionary item \<and> keychain v = keychain w \<and>
          getCredentialsForItem B item v = Some (credentials' ! (length credentials + j), v')"
    by simp
  then show ?thesis by blast
qed

text \<open>
  C6 says that the enumeration turns the backend's answer into the (account, secret)
  credentials. Two generic passwords stored under the service \<^verbatim>\<open>mail\<close>: \<^verbatim>\<open>erin\<close> with a
  secret of three bytes, the second a NUL, and \<^verbatim>\<open>dave\<close> with a secret of one character
  that takes three bytes in UTF-8 (the euro sign). The enumeration returns \<^verbatim>\<open>SUCCESS\<close>
  with the first secret cut at the NUL and the second empty: the secret goes through
  \<^verbatim>\<open>CFStringToStdString\<close>, which reads a C string, into a buffer of two bytes for each
  character.
\<close>

theorem lookups_decode_payload_counterexample:
  "map_option fst
     (find_credentials keychain_backend ''mail'' [] []
        (start [generic_item ''mail'' ''erin'' [CHR ''p'', CHR 0x00, CHR ''q''],
                generic_item ''mail'' ''dave'' [CHR 0xE2, CHR 0x82, CHR 0xAC]]))
   = Some SUCCESS \<and>
   map_option (fst \<circ> snd)
     (find_credentials keychain_backend ''mail'' [] []
        (start [generic_item ''mail'' ''erin'' [CHR ''p'', CHR 0x00, CHR ''q''],
                generic_item ''mail'' ''dave'' [CHR 0xE2, CHR 0x82, CHR 0xAC]]))
   = Some [(''erin'', ''p''), (''dave'', [])]"
  by code_simp

text \<open>
  C6, amended. For every backend, when \<^verbatim>\<open>get_password\<close> or \<^verbatim>\<open>find_password\<close> returns
  \<^verbatim>\<open>SUCCESS\<close>, it made one lookup, whose query asks for the data of one item and for
  nothing else, and the string it returns is, byte for byte, the data buffer the backend
  answered with. The enumeration does not return the bytes: for an item whose lookup
  answers with a dictionary, its data \<open>data\<close> is decoded to the text \<open>decoded\<close>, and the
  credential is the account and the text, each as the C string (up to the first NUL)
  that \<^verbatim>\<open>CFStringToStdString\<close> reads from the string's direct pointer, or from the copy when
  there is no pointer and the copy fits the buffer. For an array of at most \<^verbatim>\<open>INT_MAX\<close>
  elements, \<^verbatim>\<open>find_credentials\<close> returns \<^verbatim>\<open>SUCCESS\<close> with one credential for each element
  behind what the caller's vector held; on a backend whose lookups leave the store
  unchanged, the one at position \<open>j\<close> is that credential of the item at index \<open>j\<close>.
\<close>

theorem lookups_decode_payload:
  "(get_password B service account password error w = Some (SUCCESS, password1, error1, w1) \<longrightarrow>
      itemCopyMatching B (get_query service account) (keychain w)
        = (errSecSuccess, Some (CFData password1), keychain w1) \<and>
      calls w1 = calls w @ [CopyMatching (get_query service account)]) \<and>
   (find_password B service password error w = Some (SUCCESS, password2, error2, w2) \<longrightarrow>
      itemCopyMatching B (find_query service) (keychain w)
        = (errSecSuccess, Some (CFData password2), keychain w2) \<and>
      calls w2 = calls w @ [CopyMatching (find_query service)]) \<and>
   map_of (get_query service account) kSecReturnData = Some kCFBooleanTrue \<and>
   map_of (get_query service account) kSecReturnAttributes = None \<and>
   map_of (get_query service account) kSecReturnRef = None \<and>
   map_of (get_query service account) kSecMatchLimit = Some kSecMatchLimitOne \<and>
   map_of (find_query service) kSecReturnData = Some kCFBooleanTrue \<and>
   map_of (find_query service) kSecReturnAttributes = None \<and>
   map_of (find_query service) kSecReturnRef = None \<and>
   map_of (find_query service) kSecMatchLimit = Some kSecMatchLimitOne \<and>
   (find_credentials B service credentials error w = Some (r, credentials', error', w') \<and>
    itemCopyMatching B (find_all_query service) (keychain w)
      = (errSecSuccess, Some (CFArray resultArray), k) \<and>
    length resultArray < 2147483648 \<longrightarrow>
      r = SUCCESS \<and>
      length credentials' = length credentials + length resultArray \<and>
      take (length credentials) credentials' = credentials) \<and>
   (map_of item kSecAttrService = Some svc \<and>
    map_of item kSecAttrAccount = Some (CFString acct) \<and>
    map_of attrs kSecValueData = Some (CFData data) \<and>
    createFromExternalRepresentation B data = Some decoded \<and>
    (getCStringPtr B acct = Some a \<or>
     getCStringPtr B acct = None \<and> getCString B acct (getLength B acct * 2 + 1) = Some a) \<and>
    (getCStringPtr B decoded = Some s \<or>
     getCStringPtr B decoded = None \<and>
     getCString B decoded (getLength B decoded * 2 + 1) = Some s) \<longrightarrow>
      (getCredentialsForItem B item v = Some (cred, v') \<and>
       itemCopyMatching B (item_query svc (CFString acct)) (keychain v)
         = (errSecSuccess, Some (CFDictionary attrs), k') \<longrightarrow>
         cred = (cstring a, cstring s)) \<and>
      ((\<forall>q k. snd (snd (itemCopyMatching B q k)) = k) \<and>
       find_credentials B service credentials error w = Some (r, credentials', error', w') \<and>
       itemCopyMatching B (find_all_query service) (keychain w)
         = (errSecSuccess, Some (CFArray resultArray), k) \<and>
       length resultArray < 2147483648 \<and>
       j < length resultArray \<and> resultArray ! j = CFDictionary item \<and>
       itemCopyMatching B (item_query svc (CFString acct)) (keychain w)
         = (errSecSuccess, Some (CFDictionary attrs), keychain w) \<longrightarrow>
         credentials' ! (length credentials + j) = (cstring a, cstring s)))"
proof (intro conjI impI)
  assume "find_credentials B service credentials error w = Some (r, credentials', error', w') \<and>
    itemCopyMatching B (find_all_query service) (keychain w)
      = (errSecSuccess, Some (CFArray resultArray), k) \<and>
    length resultArray < 2147483648"
  then have run: "find_credentials B service credentials error w
                    = Some (r, credentials', error', w')"
    and outer: "itemCopyMatching B (find_all_query service) (keychain w)
                  = (errSecSuccess, Some (CFArray resultArray), k)"
    and small: "length resultArray < 2147483648"
    by simp_all
  note C = find_credentials_counts [OF run outer small]
  from C show "r = SUCCESS" by simp
  from C show "length credentials' = length credentials + length resultArray" by simp
  from C show "take (length credentials) credentials' = credentials" by simp
next
  assume h: "map_of item kSecAttrService = Some svc \<and>
    map_of item kSecAttrAccount = Some (CFString acct) \<and>
    map_of attrs kSecValueData = Some (CFData data) \<and>
    createFromExternalRepresentation B data = Some decoded \<and>
    (getCStringPtr B acct = Some a \<or>
     getCStringPtr B acct = None \<and> getCString B acct (getLength B acct * 2 + 1) = Some a) \<and>
    (getCStringPtr B decoded = Some s \<or>
     getCStringPtr B decoded = None \<and>
     getCString B decoded (getLength B decoded * 2 + 1) = Some s)"
  then have svc: "map_of item kSecAttrService = Some svc"
    and acct: "map_of item kSecAttrAccount = Some (CFString acct)"
    and dat: "map_of attrs kSecValueData = Some (CFData data)"
    and dec: "createFromExternalRepresentation B data = Some decoded"
    and a: "getCStringPtr B acct = Some a \<or>
            getCStringPtr B acct = None \<and> getCString B acct (getLength B acct * 2 + 1) = Some a"
    and s: "getCStringPtr B decoded = Some s \<or>
            getCStringPtr B decoded = None \<and>
            getCString B decoded (getLength B decoded * 2 + 1) = Some s"
    by simp_all
  {
    assume "getCredentialsForItem B item v = Some (cred, v') \<and>
       itemCopyMatching B (item_query svc (CFString acct)) (keychain v)
         = (errSecSuccess, Some (CFDictionary attrs), k')"
    then have g: "getCredentialsForItem B item v = Some (cred, v')"
      and cm: "itemCopyMatching B (item_query svc (CFString acct)) (keychain v)
                 = (errSecSuccess, Some (CFDictionary attrs), k')"
      by simp_all
    from getCredentialsForItem_exact [OF g svc acct cm dat dec a s]
    show "cred = (cstring a, cstring s)" .
  }
  assume e: "(\<forall>q k. snd (snd (itemCopyMatching B q k)) = k) \<and>
       find_credentials B service credentials error w = Some (r, credentials', error', w') \<and>
       itemCopyMatching B (find_all_query service) (keychain w)
         = (errSecSuccess, Some (CFArray resultArray), k) \<and>
       length resultArray < 2147483648 \<and>
       j < length resultArray \<and> resultArray ! j = CFDictionary item \<and>
       itemCopyMatching B (item_query svc (CFString acct)) (keychain w)
         = (errSecSuccess, Some (CFDictionary attrs), keychain w)"
  then have keep: "\<forall>q k. snd (snd (itemCopyMatching B q k)) = k"
    and run: "find_credentials B service credentials error w
                = Some (r, credentials', error', w')"
    and outer: "itemCopyMatching B (find_all_query service) (keychain w)
                  = (errSecSuccess, Some (CFArray resultArray), k)"
    and small: "length resultArray < 2147483648"
    and j: "j < length resultArray" and at: "resultArray ! j = CFDictionary item"
    and cm: "itemCopyMatching B (item_query svc (CFString acct)) (keychain w)
               = (errSecSuccess, Some (CFDictionary attrs), keychain w)"
    by simp_all
  from find_credentials_enumerates [OF keep run outer small j] at obtain u u' where
    ku: "keychain u = keychain w"
    and g: "getCredentialsForItem B item u
              = Some (credentials' ! (length credentials + j), u')"
    by auto
  from cm ku have "itemCopyMatching B (item_query svc (CFString acct)) (keychain u)
                     = (errSecSuccess, Some (CFDictionary attrs), keychain w)"
    by simp
  from getCredentialsForItem_exact [OF g svc acct this dat dec a s]
  show "credentials' ! (length credentials + j) = (cstring a, cstring s)" .
qed (simp_all add: get_password_SUCCESS find_password_SUCCESS,
     simp_all add: get_query_def find_query_def)

text \<open>
  Witness for C6: the sample keychain; the secret \<^verbatim>\<open>get_password\<close> and \<^verbatim>\<open>find_password\<close>
  read back holds a NUL and a byte that is not UTF-8, and the enumeration returns the
  three generic passwords behind the entry the vector held.
\<close>

theorem lookups_decode_payload_witness:
  "(\<exists>w1. get_password keychain_backend ''mail'' ''alice'' [] [] (start sample_keychain)
            = Some (SUCCESS, [CHR ''p'', CHR 0x00, CHR 0xFF], [], w1) \<and>
          itemCopyMatching keychain_backend (get_query ''mail'' ''alice'')
            (keychain (start sample_keychain))
            = (errSecSuccess, Some (CFData [CHR ''p'', CHR 0x00, CHR 0xFF]), keychain w1)) \<and>
   (\<exists>w2. find_password keychain_backend ''mail'' [] [] (start sample_keychain)
            = Some (SUCCESS, [CHR ''p'', CHR 0x00, CHR 0xFF], [], w2) \<and>
          itemCopyMatching keychain_backend (find_query ''mail'')
            (keychain (start sample_keychain))
            = (errSecSuccess, Some (CFData [CHR ''p'', CHR 0x00, CHR 0xFF]), keychain w2)) \<and>
   (\<exists>w3. getCredentialsForItem keychain_backend
            [(kSecClass, kSecClassGenericPassword), (kSecAttrService, CFString ''mail''),
             (kSecAttrAccount, CFString ''dave'')]
            (start sample_keychain)
            = Some ((cstring ''dave'', cstring ''pw4''), w3)) \<and>
   (\<exists>credentials' w4.
      find_credentials keychain_backend ''mail'' [(''earlier'', ''entry'')] []
        (start sample_keychain)
        = Some (SUCCESS, credentials', [], w4) \<and>
      credentials' = [(''earlier'', ''entry''), (''bob'', ''pw2''), (''carol'', ''pw3''),
                      (''dave'', ''pw4'')] \<and>
      credentials' ! (length [(''earlier'', ''entry'')] + 2) = (cstring ''dave'', cstring ''pw4''))"
proof -
  let ?item = "[(kSecClass, kSecClassGenericPassword), (kSecAttrService, CFString ''mail''),
                (kSecAttrAccount, CFString ''dave'')]"
  let ?creds = "[(''earlier'', ''entry''), (''bob'', ''pw2''), (''carol'', ''pw3''),
                 (''dave'', ''pw4'')]"
  note T = lookups_decode_payload [where B = keychain_backend and service = "''mail''" and
      account = "''alice''" and password = "[]" and w = "start sample_keychain"]
  have "map_option (\<lambda>(r, p, e, w). (r, p, e))
          (get_password keychain_backend ''mail'' ''alice'' [] [] (start sample_keychain))
        = Some (SUCCESS, [CHR ''p'', CHR 0x00, CHR 0xFF], [])"
    by code_simp
  then obtain w1 where
    g: "get_password keychain_backend ''mail'' ''alice'' [] [] (start sample_keychain)
          = Some (SUCCESS, [CHR ''p'', CHR 0x00, CHR 0xFF], [], w1)"
    by auto
  have "map_option (\<lambda>(r, p, e, w). (r, p, e))
          (find_password keychain_backend ''mail'' [] [] (start sample_keychain))
        = Some (SUCCESS, [CHR ''p'', CHR 0x00, CHR 0xFF], [])"
    by code_simp
  then obtain w2 where
    f: "find_password keychain_backend ''mail'' [] [] (start sample_keychain)
          = Some (SUCCESS, [CHR ''p'', CHR 0x00, CHR 0xFF], [], w2)"
    by auto
  have "map_option (\<lambda>(c, w). c = c)
          (getCredentialsForItem keychain_backend ?item (start sample_keychain))
        = Some True"
    by code_simp
  then obtain cred w3 where
    c: "getCredentialsForItem keychain_backend ?item (start sample_keychain) = Some (cred, w3)"
    by auto
  have "map_option (\<lambda>(r, c, e, w). (r, c, e))
          (find_credentials keychain_backend ''mail'' [(''earlier'', ''entry'')] []
             (start sample_keychain))
        = Some (SUCCESS, ?creds, [])"
    by code_simp
  then obtain w4 where
    run: "find_credentials keychain_backend ''mail'' [(''earlier'', ''entry'')] []
            (start sample_keychain)
          = Some (SUCCESS, ?creds, [], w4)"
    by auto
  have svc: "map_of ?item kSecAttrService = Some (CFString ''mail'')"
    and acct: "map_of ?item kSecAttrAccount = Some (CFString ''dave'')"
    and dat: "map_of (generic_item ''mail'' ''dave'' ''pw4'') kSecValueData
                = Some (CFData ''pw4'')"
    by (simp_all add: generic_item_def)
  have dec: "createFromExternalRepresentation keychain_backend ''pw4'' = Some ''pw4''"
    by (simp add: keychain_backend_def kc_createFromExternalRepresentation_def byte_def)
  have a: "getCStringPtr keychain_backend ''dave'' = Some ''dave''"
    and s: "getCStringPtr keychain_backend ''pw4'' = Some ''pw4''"
    by (simp_all add: keychain_backend_def kc_getCStringPtr_def byte_def)
  have keep: "\<forall>q k. snd (snd (itemCopyMatching keychain_backend q k)) = k"
    by (simp add: backend_simps kc_itemCopyMatching_def split: list.splits)
  have outer: "itemCopyMatching keychain_backend (find_all_query ''mail'')
                 (keychain (start sample_keychain))
               = (errSecSuccess,
                  Some (CFArray
                    [CFDictionary
                       [(kSecClass, kSecClassGenericPassword),
                        (kSecAttrService, CFString ''mail''),
                        (kSecAttrAccount, CFString ''bob'')],
                     CFDictionary
                       [(kSecClass, kSecClassGenericPassword),
                        (kSecAttrService, CFString ''mail''),
                        (kSecAttrAccount, CFString ''carol'')],
                     CFDictionary ?item]),
                  sample_keychain)"
    by code_simp
  have cm: "itemCopyMatching keychain_backend
              (item_query (CFString ''mail'') (CFString ''dave''))
              (keychain (start sample_keychain))
            = (errSecSuccess, Some (CFDictionary (generic_item ''mail'' ''dave'' ''pw4'')),
               keychain (start sample_keychain))"
    by code_simp
  note E = T [where item = ?item and svc = "CFString ''mail''" and acct = "''dave''" and
      attrs = "generic_item ''mail'' ''dave'' ''pw4''" and data = "''pw4''" and
      decoded = "''pw4''" and a = "''dave''" and s = "''pw4''" and j = 2,
      THEN conjunct2, THEN conjunct2, THEN conjunct2, THEN conjunct2, THEN conjunct2,
      THEN conjunct2, THEN conjunct2, THEN conjunct2, THEN conjunct2, THEN conjunct2]
  note F = E [THEN conjunct2, THEN mp, OF conjI [OF svc conjI [OF acct conjI [OF dat
        conjI [OF dec conjI [OF disjI1 [OF a] disjI1 [OF s]]]]]]]
  from F [THEN conjunct1, THEN mp, OF conjI [OF c cm]]
  have one: "cred = (cstring ''dave'', cstring ''pw4'')" .
  from E [THEN conjunct1, THEN mp, OF conjI [OF run conjI [OF outer]]]
  have cnt: "length ?creds = length [(''earlier'', ''entry'')] + 3"
    by simp
  have j: "(2::nat) < length [x, y, CFDictionary ?item]" for x y :: cftype by simp
  have at: "[x, y, CFDictionary ?item] ! 2 = CFDictionary ?item" for x y :: cftype by simp
  from F [THEN conjunct2, THEN mp,
      OF conjI [OF keep conjI [OF run conjI [OF outer conjI [OF _ conjI [OF j conjI [OF at cm]]]]]]]
  have two: "?creds ! (length [(''earlier'', ''entry'')] + 2)
               = (cstring ''dave'', cstring ''pw4'')"
    by simp
  from T [THEN conjunct1, THEN mp, OF g] T [THEN conjunct2, THEN conjunct1, THEN mp, OF f]
    g f c one run two
  show ?thesis by blast
qed

subsection \<open>C7: an item whose secret cannot be looked up\<close>

text \<open>
  C7 says that an item whose secret cannot be looked up or decoded is represented by a
  default-constructed credential. Two keychains with one generic password each. The
  first secret is a byte that is not UTF-8: \<^verbatim>\<open>CFStringCreateFromExternalRepresentation\<close>
  returns NULL, which the source hands to \<^verbatim>\<open>CFStringToStdString\<close>, and the enumeration
  does not return. The second secret is the euro sign: the copy into the buffer fails
  and the credential has the account of the item and an empty secret; the
  default-constructed credential has an empty account.
\<close>

theorem enumeration_pushes_default_on_failed_lookup_counterexample:
  "find_credentials keychain_backend ''mail'' [] []
     (start [generic_item ''mail'' ''dave'' [CHR 0xFF]]) = None \<and>
   map_option fst
     (find_credentials keychain_backend ''mail'' [] []
        (start [generic_item ''mail'' ''dave'' [CHR 0xE2, CHR 0x82, CHR 0xAC]]))
   = Some SUCCESS \<and>
   map_option (fst \<circ> snd)
     (find_credentials keychain_backend ''mail'' [] []
        (start [generic_item ''mail'' ''dave'' [CHR 0xE2, CHR 0x82, CHR 0xAC]]))
   = Some [(''dave'', [])] \<and>
   (''dave'', []) \<noteq> Credentials_default"
  by code_simp

text \<open>
  C7, amended to the failure the source tests, the status of the lookup: for every
  backend and every item with a service and an account, when the lookup of the item's
  secret does not report success, \<^verbatim>\<open>getCredentialsForItem\<close> returns the
  default-constructed credential, and the loop of \<^verbatim>\<open>find_credentials\<close> pushes it and
  goes on with the next index. So when the lookup of the item at position \<open>i\<close> is
  refused in every state, an enumeration that returns has returned \<^verbatim>\<open>SUCCESS\<close> with one
  credential for each item of the array (of at most \<^verbatim>\<open>INT_MAX\<close> items) behind what the
  vector held, the default one at position \<open>i\<close>: the item is neither skipped nor
  reported as an error.
\<close>

theorem enumeration_pushes_default_on_failed_lookup:
  assumes svc: "map_of item kSecAttrService = Some svc"
      and acct: "map_of item kSecAttrAccount = Some acct"
  shows "(itemCopyMatching B (item_query svc acct) (keychain v) = (status, result, k') \<and>
          status \<noteq> errSecSuccess \<longrightarrow>
            (\<exists>v'. getCredentialsForItem B item v = Some (Credentials_default, v') \<and>
                  (0 \<le> idx \<and> idx < resultCount \<and> nat idx < length arr \<and>
                   arr ! nat idx = CFDictionary item \<longrightarrow>
                     find_credentials_loop B arr idx resultCount credentials v
                       = find_credentials_loop B arr (idx + 1) resultCount
                           (credentials @ [Credentials_default]) v'))) \<and>
         ((\<forall>k. fst (itemCopyMatching B (item_query svc acct) k) \<noteq> errSecSuccess) \<and>
          itemCopyMatching B (find_all_query service) (keychain w)
            = (errSecSuccess, Some (CFArray resultArray), k) \<and>
          length resultArray < 2147483648 \<and>
          i < length resultArray \<and> resultArray ! i = CFDictionary item \<and>
          find_credentials B service credentials error w = Some (r, credentials', error', w') \<longrightarrow>
            r = SUCCESS \<and>
            length credentials' = length credentials + length resultArray \<and>
            take (length credentials) credentials' = credentials \<and>
            credentials' ! (length credentials + i) = Credentials_default)"
proof (rule conjI)
  show "itemCopyMatching B (item_query svc acct) (keychain v) = (status, result, k') \<and>
          status \<noteq> errSecSuccess \<longrightarrow>
            (\<exists>v'. getCredentialsForItem B item v = Some (Credentials_default, v') \<and>
                  (0 \<le> idx \<and> idx < resultCount \<and> nat idx < length arr \<and>
                   arr ! nat idx = CFDictionary item \<longrightarrow>
                     find_credentials_loop B arr idx resultCount credentials v
                       = find_credentials_loop B arr (idx + 1) resultCount
                           (credentials @ [Credentials_default]) v'))"
  proof (rule impI, elim conjE)
    assume cm: "itemCopyMatching B (item_query svc acct) (keychain v) = (status, result, k')"
      and st: "status \<noteq> errSecSuccess"
    from getCredentialsForItem_refused [OF svc acct cm st] obtain v' where
      g: "getCredentialsForItem B item v = Some (Credentials_default, v')"
      by blast
    then have "0 \<le> idx \<and> idx < resultCount \<and> nat idx < length arr \<and>
               arr ! nat idx = CFDictionary item \<longrightarrow>
                 find_credentials_loop B arr idx resultCount credentials v
                   = find_credentials_loop B arr (idx + 1) resultCount
                       (credentials @ [Credentials_default]) v'"
      by (subst find_credentials_loop.simps) simp
    with g show "\<exists>v'. getCredentialsForItem B item v = Some (Credentials_default, v') \<and>
                  (0 \<le> idx \<and> idx < resultCount \<and> nat idx < length arr \<and>
                   arr ! nat idx = CFDictionary item \<longrightarrow>
                     find_credentials_loop B arr idx resultCount credentials v
                       = find_credentials_loop B arr (idx + 1) resultCount
                           (credentials @ [Credentials_default]) v')"
      by blast
  qed
next
  show "(\<forall>k. fst (itemCopyMatching B (item_query svc acct) k) \<noteq> errSecSuccess) \<and>
          itemCopyMatching B (find_all_query service) (keychain w)
            = (errSecSuccess, Some (CFArray resultArray), k) \<and>
          length resultArray < 2147483648 \<and>
          i < length resultArray \<and> resultArray ! i = CFDictionary item \<and>
          find_credentials B service credentials error w = Some (r, credentials', error', w') \<longrightarrow>
            r = SUCCESS \<and>
            length credentials' = length credentials + length resultArray \<and>
            take (length credentials) credentials' = credentials \<and>
            credentials' ! (length credentials + i) = Credentials_default"
  proof (rule impI, elim conjE)
    assume refuse: "\<forall>k. fst (itemCopyMatching B (item_query svc acct) k) \<noteq> errSecSuccess"
      and outer: "itemCopyMatching B (find_all_query service) (keychain w)
                    = (errSecSuccess, Some (CFArray resultArray), k)"
      and small: "length resultArray < 2147483648"
      and at: "i < length resultArray" "resultArray ! i = CFDictionary item"
      and run: "find_credentials B service credentials error w
                  = Some (r, credentials', error', w')"
    from find_credentials_found [OF run outer] obtain v1 v2 where
      r: "r = SUCCESS"
      and l: "find_credentials_loop B resultArray 0 (int_of_CFIndex (length resultArray))
                credentials v1
              = Some (credentials', v2)"
      by blast
    from l int_of_CFIndex_small [OF small]
    have l': "find_credentials_loop B resultArray 0 (int (length resultArray)) credentials v1
                = Some (credentials', v2)"
      by simp
    have "(0::int) \<le> int (length resultArray)" by simp
    from find_credentials_loop_extends [OF l' this] obtain ext where
      ext: "credentials' = credentials @ ext" "length ext = length resultArray"
      by auto
    from refuse have ref: "\<And>k. fst (itemCopyMatching B (item_query svc acct) k) \<noteq> errSecSuccess"
      by simp
    from at have lt: "int i < int (length resultArray)" and ati: "resultArray ! nat (int i) = CFDictionary item"
      by simp_all
    have z: "(0::int) \<le> 0" "(0::int) \<le> int i" by simp_all
    from find_credentials_loop_default [OF l' z lt ati svc acct ref]
    have "credentials' ! (length credentials + i) = Credentials_default" by simp
    with r ext show "r = SUCCESS \<and>
            length credentials' = length credentials + length resultArray \<and>
            take (length credentials) credentials' = credentials \<and>
            credentials' ! (length credentials + i) = Credentials_default"
      by simp
  qed
qed

text \<open>
  Witness for C7: a keychain that lists the three generic passwords of the sample but
  refuses to hand out their data.
\<close>

theorem enumeration_pushes_default_on_failed_lookup_witness:
  "(\<exists>v'. getCredentialsForItem guarded_backend
            [(kSecClass, kSecClassGenericPassword), (kSecAttrService, CFString ''mail''),
             (kSecAttrAccount, CFString ''carol'')]
            (start sample_keychain)
          = Some (Credentials_default, v')) \<and>
   (\<exists>w'. find_credentials guarded_backend ''mail'' [(''earlier'', ''entry'')] []
            (start sample_keychain)
          = Some (SUCCESS,
                  [(''earlier'', ''entry''), Credentials_default, Credentials_default,
                   Credentials_default],
                  [], w'))"
proof -
  let ?item = "[(kSecClass, kSecClassGenericPassword), (kSecAttrService, CFString ''mail''),
                (kSecAttrAccount, CFString ''carol'')]"
  let ?creds = "[(''earlier'', ''entry''), Credentials_default, Credentials_default,
                 Credentials_default]"
  have svc: "map_of ?item kSecAttrService = Some (CFString ''mail'')"
    and acct: "map_of ?item kSecAttrAccount = Some (CFString ''carol'')"
    by simp_all
  note T = enumeration_pushes_default_on_failed_lookup [OF svc acct,
      where B = guarded_backend]
  have cm: "itemCopyMatching guarded_backend (item_query (CFString ''mail'') (CFString ''carol''))
              (keychain (start sample_keychain))
            = (errSecAuthFailed, None, sample_keychain)"
    by (simp add: guarded_backend_def item_query_def start_def)
  have ne: "errSecAuthFailed \<noteq> errSecSuccess"
    by (simp add: errSecAuthFailed_def errSecSuccess_def)
  have refuse: "\<forall>k. fst (itemCopyMatching guarded_backend
                          (item_query (CFString ''mail'') (CFString ''carol'')) k)
                      \<noteq> errSecSuccess"
    by (simp add: guarded_backend_def item_query_def errSecAuthFailed_def errSecSuccess_def)
  have outer: "itemCopyMatching guarded_backend (find_all_query ''mail'')
                 (keychain (start sample_keychain))
               = (errSecSuccess,
                  Some (CFArray
                    [CFDictionary
                       [(kSecClass, kSecClassGenericPassword),
                        (kSecAttrService, CFString ''mail''),
                        (kSecAttrAccount, CFString ''bob'')],
                     CFDictionary ?item,
                     CFDictionary
                       [(kSecClass, kSecClassGenericPassword),
                        (kSecAttrService, CFString ''mail''),
                        (kSecAttrAccount, CFString ''dave'')]]),
                  sample_keychain)"
    by code_simp
  have "map_option (\<lambda>(r, c, e, w). (r, c, e))
          (find_credentials guarded_backend ''mail'' [(''earlier'', ''entry'')] []
             (start sample_keychain))
        = Some (SUCCESS, ?creds, [])"
    by code_simp
  then obtain w' where
    run: "find_credentials guarded_backend ''mail'' [(''earlier'', ''entry'')] []
            (start sample_keychain)
          = Some (SUCCESS, ?creds, [], w')"
    by auto
  from T [THEN conjunct1, THEN mp, OF conjI [OF cm ne]]
  have one: "\<exists>v'. getCredentialsForItem guarded_backend ?item (start sample_keychain)
              = Some (Credentials_default, v')"
    by blast
  from T [THEN conjunct2, THEN mp,
      OF conjI [OF refuse conjI [OF outer conjI [OF _ conjI [OF _ conjI [OF _ run]]]]], of 1]
  have two: "?creds ! 2 = Credentials_default"
    by simp
  from one run two show ?thesis by blast
qed

subsection \<open>C8: the message of an error\<close>

lemma set_password_FAIL_ERROR:
  assumes "set_password B service account password error w = Some (FAIL_ERROR, msg, w')"
  shows "\<exists>status k status' k'.
           itemUpdate B (key_query service account) (password_update password) (keychain w)
             = (status, k) \<and>
           itemAdd B (add_attributes service account password) k = (status', k') \<and>
           (if status = errSecItemNotFound then status' else status) \<noteq> errSecSuccess \<and>
           map_option fst
             (errorStatusToString B (if status = errSecItemNotFound then status' else status) w)
             = Some msg"
proof -
  obtain status k where
    upd: "itemUpdate B (key_query service account) (password_update password) (keychain w)
            = (status, k)"
    by (cases "itemUpdate B (key_query service account) (password_update password) (keychain w)")
  obtain status' k' where add: "itemAdd B (add_attributes service account password) k = (status', k')"
    by (cases "itemAdd B (add_attributes service account password) k")
  from assms upd add set_password_valid [OF assms] show ?thesis
    by (clarsimp simp add: set_password_def AddPassword_def cf_defs Let_def query_defs
          cstring_c_str take_c_str
          split: prod.splits option.splits if_splits Option.bind_splits)
       (blast dest: errorStatusToString_any_world)+
qed

lemma get_password_FAIL_ERROR:
  assumes "get_password B service account password error w
             = Some (FAIL_ERROR, password', msg, w')"
  shows "\<exists>status result k.
           itemCopyMatching B (get_query service account) (keychain w) = (status, result, k) \<and>
           status \<noteq> errSecSuccess \<and> status \<noteq> errSecItemNotFound \<and>
           map_option fst (errorStatusToString B status w) = Some msg"
proof -
  obtain status result k where
    cm: "itemCopyMatching B (get_query service account) (keychain w) = (status, result, k)"
    by (cases "itemCopyMatching B (get_query service account) (keychain w)")
  from assms cm get_password_valid [OF assms] show ?thesis
    by (clarsimp simp add: get_password_def cf_defs Let_def query_defs cstring_c_str
          split: prod.splits option.splits if_splits cftype.splits Option.bind_splits)
       (blast dest: errorStatusToString_any_world)+
qed

lemma delete_password_FAIL_ERROR:
  assumes "delete_password B service account error w = Some (FAIL_ERROR, msg, w')"
  shows "\<exists>status k.
           itemDelete B (key_query service account) (keychain w) = (status, k) \<and>
           status \<noteq> errSecSuccess \<and> status \<noteq> errSecItemNotFound \<and>
           map_option fst (errorStatusToString B status w) = Some msg"
proof -
  obtain status k where
    cm: "itemDelete B (key_query service account) (keychain w) = (status, k)"
    by (cases "itemDelete B (key_query service account) (keychain w)")
  from assms cm delete_password_valid [OF assms] show ?thesis
    by (clarsimp simp add: delete_password_def cf_defs Let_def query_defs cstring_c_str
          split: prod.splits option.splits if_splits Option.bind_splits)
       (blast dest: errorStatusToString_any_world)+
qed

lemma find_password_FAIL_ERROR:
  assumes "find_password B service password error w = Some (FAIL_ERROR, password', msg, w')"
  shows "\<exists>status result k.
           itemCopyMatching B (find_query service) (keychain w) = (status, result, k) \<and>
           status \<noteq> errSecSuccess \<and> status \<noteq> errSecItemNotFound \<and>
           map_option fst (errorStatusToString B status w) = Some msg"
proof -
  obtain status result k where
    cm: "itemCopyMatching B (find_query service) (keychain w) = (status, result, k)"
    by (cases "itemCopyMatching B (find_query service) (keychain w)")
  from assms cm find_password_valid [OF assms] show ?thesis
    by (clarsimp simp add: find_password_def cf_defs Let_def query_defs cstring_c_str
          split: prod.splits option.splits if_splits cftype.splits Option.bind_splits)
       (blast dest: errorStatusToString_any_world)+
qed

lemma find_credentials_FAIL_ERROR:
  assumes "find_credentials B service credentials error w
             = Some (FAIL_ERROR, credentials', msg, w')"
  shows "\<exists>status result k.
           itemCopyMatching B (find_all_query service) (keychain w) = (status, result, k) \<and>
           status \<noteq> errSecSuccess \<and> status \<noteq> errSecItemNotFound \<and>
           map_option fst (errorStatusToString B status w) = Some msg"
proof -
  obtain status result k where
    cm: "itemCopyMatching B (find_all_query service) (keychain w) = (status, result, k)"
    by (cases "itemCopyMatching B (find_all_query service) (keychain w)")
  from assms cm find_credentials_valid [OF assms] show ?thesis
    by (clarsimp simp add: find_credentials_def cf_defs Let_def query_defs cstring_c_str
          split: prod.splits option.splits if_splits cftype.splits Option.bind_splits)
       (blast dest: errorStatusToString_any_world)+
qed

text \<open>
  C8 says that the message of an error is the system's description of the status, the
  generic string only when the system cannot produce a description, and never empty. A
  keychain that refuses every request, on a system that describes the status in French
  (the description has two letters with an accent, so no direct C-string pointer):
  \<^verbatim>\<open>get_password\<close> returns \<^verbatim>\<open>FAIL_ERROR\<close> with the generic string, although the
  description exists. On a system whose description is the empty string, it returns
  \<^verbatim>\<open>FAIL_ERROR\<close> with an empty message.
\<close>

theorem error_result_carries_message_counterexample:
  "copyErrorMessageString
     (describing_backend errSecAuthFailed
        (''Acc'' @ [CHR 0xC3, CHR 0xA8] @ ''s refus'' @ [CHR 0xC3, CHR 0xA9]))
     errSecAuthFailed
   = Some (''Acc'' @ [CHR 0xC3, CHR 0xA8] @ ''s refus'' @ [CHR 0xC3, CHR 0xA9]) \<and>
   map_option fst
     (get_password
        (describing_backend errSecAuthFailed
           (''Acc'' @ [CHR 0xC3, CHR 0xA8] @ ''s refus'' @ [CHR 0xC3, CHR 0xA9]))
        ''mail'' ''alice'' [] [] (start []))
   = Some FAIL_ERROR \<and>
   map_option (fst \<circ> snd \<circ> snd)
     (get_password
        (describing_backend errSecAuthFailed
           (''Acc'' @ [CHR 0xC3, CHR 0xA8] @ ''s refus'' @ [CHR 0xC3, CHR 0xA9]))
        ''mail'' ''alice'' [] [] (start []))
   = Some ''An unknown error occurred.'' \<and>
   map_option fst
     (get_password (describing_backend errSecAuthFailed []) ''mail'' ''alice'' [] []
        (start []))
   = Some FAIL_ERROR \<and>
   map_option (fst \<circ> snd \<circ> snd)
     (get_password (describing_backend errSecAuthFailed []) ''mail'' ''alice'' [] []
        (start []))
   = Some []"
  by code_simp

text \<open>
  C8, amended: for every backend, the message \<^verbatim>\<open>errorStatusToString\<close> returns is the
  system's description of the status read as a C string through its direct pointer
  (\<^verbatim>\<open>CFStringGetCStringPtr\<close>), and the generic string when the description has no such
  pointer; it is empty exactly when that C string is empty. And whenever an operation
  returns \<^verbatim>\<open>FAIL_ERROR\<close>, its error output is that message for the status that failed
  (for \<^verbatim>\<open>set_password\<close> the insert's after a miss, the update's otherwise).
\<close>

theorem error_result_carries_message:
  "(errorStatusToString B status v = Some (msg, v') \<longrightarrow>
      (\<exists>m. copyErrorMessageString B status = Some m \<and>
           msg = (case getCStringPtr B m of
                    Some p \<Rightarrow> cstring p
                  | None \<Rightarrow> ''An unknown error occurred.'') \<and>
           (msg = [] \<longleftrightarrow> (\<exists>p. getCStringPtr B m = Some p \<and> cstring p = [])))) \<and>
   (set_password B service account password error w = Some (FAIL_ERROR, msg1, w1) \<longrightarrow>
      (\<exists>status k status' k'.
         itemUpdate B (key_query service account) (password_update password) (keychain w)
           = (status, k) \<and>
         itemAdd B (add_attributes service account password) k = (status', k') \<and>
         (if status = errSecItemNotFound then status' else status) \<noteq> errSecSuccess \<and>
         map_option fst
           (errorStatusToString B (if status = errSecItemNotFound then status' else status) w)
           = Some msg1)) \<and>
   (get_password B service account password error w = Some (FAIL_ERROR, password2, msg2, w2) \<longrightarrow>
      (\<exists>status result k.
         itemCopyMatching B (get_query service account) (keychain w) = (status, result, k) \<and>
         status \<noteq> errSecSuccess \<and> status \<noteq> errSecItemNotFound \<and>
         map_option fst (errorStatusToString B status w) = Some msg2)) \<and>
   (delete_password B service account error w = Some (FAIL_ERROR, msg3, w3) \<longrightarrow>
      (\<exists>status k.
         itemDelete B (key_query service account) (keychain w) = (status, k) \<and>
         status \<noteq> errSecSuccess \<and> status \<noteq> errSecItemNotFound \<and>
         map_option fst (errorStatusToString B status w) = Some msg3)) \<and>
   (find_password B service password error w = Some (FAIL_ERROR, password4, msg4, w4) \<longrightarrow>
      (\<exists>status result k.
         itemCopyMatching B (find_query service) (keychain w) = (status, result, k) \<and>
         status \<noteq> errSecSuccess \<and> status \<noteq> errSecItemNotFound \<and>
         map_option fst (errorStatusToString B status w) = Some msg4)) \<and>
   (find_credentials B service credentials error w = Some (FAIL_ERROR, credentials5, msg5, w5) \<longrightarrow>
      (\<exists>status result k.
         itemCopyMatching B (find_all_query service) (keychain w) = (status, result, k) \<and>
         status \<noteq> errSecSuccess \<and> status \<noteq> errSecItemNotFound \<and>
         map_option fst (errorStatusToString B status w) = Some msg5))"
proof (intro conjI impI)
  assume "errorStatusToString B status v = Some (msg, v')"
  then show "\<exists>m. copyErrorMessageString B status = Some m \<and>
           msg = (case getCStringPtr B m of
                    Some p \<Rightarrow> cstring p
                  | None \<Rightarrow> ''An unknown error occurred.'') \<and>
           (msg = [] \<longleftrightarrow> (\<exists>p. getCStringPtr B m = Some p \<and> cstring p = []))"
    by (auto simp: errorStatusToString_Some split: option.splits)
qed (rule set_password_FAIL_ERROR get_password_FAIL_ERROR delete_password_FAIL_ERROR
       find_password_FAIL_ERROR find_credentials_FAIL_ERROR, assumption)+

text \<open>
  Witness for C8: each of the five operations against a keychain that refuses every
  request with \<^verbatim>\<open>errSecAuthFailed\<close>.
\<close>

theorem error_result_carries_message_witness:
  "(\<exists>w'. set_password (refusing_backend errSecAuthFailed) ''mail'' ''alice'' ''p@ss1'' []
             (start [])
           = Some (FAIL_ERROR, ''The user name or passphrase you entered is not correct.'', w')) \<and>
   (\<exists>w'. get_password (refusing_backend errSecAuthFailed) ''mail'' ''alice'' [] [] (start [])
           = Some (FAIL_ERROR, [], ''The user name or passphrase you entered is not correct.'',
                   w')) \<and>
   (\<exists>w'. delete_password (refusing_backend errSecAuthFailed) ''mail'' ''alice'' [] (start [])
           = Some (FAIL_ERROR, ''The user name or passphrase you entered is not correct.'', w')) \<and>
   (\<exists>w'. find_password (refusing_backend errSecAuthFailed) ''mail'' [] [] (start [])
           = Some (FAIL_ERROR, [], ''The user name or passphrase you entered is not correct.'',
                   w')) \<and>
   (\<exists>w'. find_credentials (refusing_backend errSecAuthFailed) ''mail'' [] [] (start [])
           = Some (FAIL_ERROR, [], ''The user name or passphrase you entered is not correct.'',
                   w')) \<and>
   map_option fst (errorStatusToString (refusing_backend errSecAuthFailed) errSecAuthFailed
                     (start []))
     = Some ''The user name or passphrase you entered is not correct.''"
proof -
  let ?B = "refusing_backend errSecAuthFailed"
  let ?m = "''The user name or passphrase you entered is not correct.''"
  note T = error_result_carries_message [where B = ?B and service = "''mail''" and
      account = "''alice''" and error = "[]" and credentials = "[]" and w = "start []"]
  have "map_option (\<lambda>(r, e, w). (r, e)) (set_password ?B ''mail'' ''alice'' ''p@ss1'' [] (start []))
          = Some (FAIL_ERROR, ?m)"
    by code_simp
  then obtain w1 where
    s: "set_password ?B ''mail'' ''alice'' ''p@ss1'' [] (start []) = Some (FAIL_ERROR, ?m, w1)"
    by auto
  have "map_option (\<lambda>(r, p, e, w). (r, p, e)) (get_password ?B ''mail'' ''alice'' [] [] (start []))
          = Some (FAIL_ERROR, [], ?m)"
    by code_simp
  then obtain w2 where
    g: "get_password ?B ''mail'' ''alice'' [] [] (start []) = Some (FAIL_ERROR, [], ?m, w2)"
    by auto
  have "map_option (\<lambda>(r, e, w). (r, e)) (delete_password ?B ''mail'' ''alice'' [] (start []))
          = Some (FAIL_ERROR, ?m)"
    by code_simp
  then obtain w3 where
    d: "delete_password ?B ''mail'' ''alice'' [] (start []) = Some (FAIL_ERROR, ?m, w3)"
    by auto
  have "map_option (\<lambda>(r, p, e, w). (r, p, e)) (find_password ?B ''mail'' [] [] (start []))
          = Some (FAIL_ERROR, [], ?m)"
    by code_simp
  then obtain w4 where
    f: "find_password ?B ''mail'' [] [] (start []) = Some (FAIL_ERROR, [], ?m, w4)"
    by auto
  have "map_option (\<lambda>(r, c, e, w). (r, c, e)) (find_credentials ?B ''mail'' [] [] (start []))
          = Some (FAIL_ERROR, [], ?m)"
    by code_simp
  then obtain w5 where
    a: "find_credentials ?B ''mail'' [] [] (start []) = Some (FAIL_ERROR, [], ?m, w5)"
    by auto
  from T [where password = "[]", THEN conjunct2, THEN conjunct2, THEN conjunct1, THEN mp, OF g]
  have "\<exists>status result k.
          itemCopyMatching ?B (get_query ''mail'' ''alice'') (keychain (start []))
            = (status, result, k) \<and>
          map_option fst (errorStatusToString ?B status (start [])) = Some ?m"
    by blast
  then have "map_option fst (errorStatusToString ?B errSecAuthFailed (start [])) = Some ?m"
    by (auto simp: refusing_backend_def)
  with s g d f a show ?thesis by blast
qed

subsection \<open>C9: the output secret on failure\<close>

text \<open>
  C9: for every backend, when \<^verbatim>\<open>get_password\<close> or \<^verbatim>\<open>find_password\<close> returns anything but
  \<^verbatim>\<open>SUCCESS\<close>, the caller's output string is what it was before the call.
\<close>

theorem lookup_failure_leaves_password:
  "(get_password B service account password error w = Some (r, password', error', w') \<and>
      r \<noteq> SUCCESS \<longrightarrow> password' = password) \<and>
   (find_password B service password error v = Some (r2, password2, error2, v') \<and>
      r2 \<noteq> SUCCESS \<longrightarrow> password2 = password)"
proof (intro conjI impI; elim conjE)
  assume run: "get_password B service account password error w = Some (r, password', error', w')"
    and "r \<noteq> SUCCESS"
  with get_password_valid [OF run] show "password' = password"
    by (clarsimp simp: get_password_def cf_defs Let_def
          split: prod.splits option.splits if_splits cftype.splits Option.bind_splits)
next
  assume run: "find_password B service password error v = Some (r2, password2, error2, v')"
    and "r2 \<noteq> SUCCESS"
  with find_password_valid [OF run] show "password2 = password"
    by (clarsimp simp: find_password_def cf_defs Let_def
          split: prod.splits option.splits if_splits cftype.splits Option.bind_splits)
qed

text \<open>
  Witness for C9: a lookup the keychain refuses returns \<^verbatim>\<open>FAIL_ERROR\<close>, a lookup in an
  empty keychain returns \<^verbatim>\<open>FAIL_NONFATAL\<close>, and both leave the output string as it was.
\<close>

theorem lookup_failure_leaves_password_witness:
  "(\<exists>error' w'.
      get_password (refusing_backend errSecAuthFailed) ''mail'' ''alice'' ''before'' []
        (start [])
      = Some (FAIL_ERROR, ''before'', error', w')) \<and>
   (\<exists>error' w'.
      find_password keychain_backend ''mail'' ''before'' [] (start [])
      = Some (FAIL_NONFATAL, ''before'', error', w'))"
proof -
  have "map_option (\<lambda>(r, p, e, w). r)
          (get_password (refusing_backend errSecAuthFailed) ''mail'' ''alice'' ''before'' []
             (start []))
        = Some FAIL_ERROR"
    by code_simp
  then obtain p e w where
    g: "get_password (refusing_backend errSecAuthFailed) ''mail'' ''alice'' ''before'' []
          (start [])
        = Some (FAIL_ERROR, p, e, w)"
    by auto
  have "map_option (\<lambda>(r, p, e, w). r)
          (find_password keychain_backend ''mail'' ''before'' [] (start []))
        = Some FAIL_NONFATAL"
    by code_simp
  then obtain p2 e2 w2 where
    f: "find_password keychain_backend ''mail'' ''before'' [] (start [])
        = Some (FAIL_NONFATAL, p2, e2, w2)"
    by auto
  from lookup_failure_leaves_password [where B = "refusing_backend errSecAuthFailed" and
      service = "''mail''" and account = "''alice''" and password = "''before''" and
      error = "[]" and w = "start []" and r = FAIL_ERROR and password' = p and error' = e and
      w' = w] g
  have "p = ''before''" by simp
  moreover
  from lookup_failure_leaves_password [where B = keychain_backend and
      service = "''mail''" and password = "''before''" and error = "[]" and
      v = "start []" and ?r2.0 = FAIL_NONFATAL and ?password2.0 = p2 and ?error2.0 = e2 and
      v' = w2] f
  have "p2 = ''before''" by simp
  ultimately show ?thesis using g f by blast
qed

subsection \<open>C10: keys as C strings, the secret with its length\<close>

lemma cstring_stops_at_NUL: "NUL \<notin> set s \<Longrightarrow> cstring (s @ NUL # t) = s"
  by (induction s) (auto simp: cstring_def)

lemma errorStatusToString_calls:
  "errorStatusToString B status w = Some (msg, w') \<Longrightarrow> calls w' = calls w"
  by (auto simp: errorStatusToString_Some)

text \<open>The requests of each operation that returns.\<close>

lemma set_password_calls:
  assumes "set_password B service account password error w = Some (r, error', w')"
  shows "\<exists>rest.
           calls w' = calls w @ Update (key_query service account) (password_update password) # rest \<and>
           (rest = [] \<or> rest = [Add (add_attributes service account password)])"
proof -
  obtain status k where
    upd: "itemUpdate B (key_query service account) (password_update password) (keychain w)
            = (status, k)"
    by (cases "itemUpdate B (key_query service account) (password_update password) (keychain w)")
  obtain status' k' where add: "itemAdd B (add_attributes service account password) k = (status', k')"
    by (cases "itemAdd B (add_attributes service account password) k")
  from assms upd add set_password_valid [OF assms] show ?thesis
    by (auto simp add: set_password_def AddPassword_def cf_defs Let_def query_defs
          cstring_c_str take_c_str
          dest!: errorStatusToString_calls
          split: prod.splits option.splits if_splits Option.bind_splits)
qed

lemma get_password_calls:
  assumes "get_password B service account password error w = Some (r, password', error', w')"
  shows "calls w' = calls w @ [CopyMatching (get_query service account)]"
proof -
  obtain status result k where
    cm: "itemCopyMatching B (get_query service account) (keychain w) = (status, result, k)"
    by (cases "itemCopyMatching B (get_query service account) (keychain w)")
  from assms cm get_password_valid [OF assms] show ?thesis
    by (auto simp add: get_password_def cf_defs Let_def query_defs cstring_c_str
          dest!: errorStatusToString_calls
          split: prod.splits option.splits if_splits cftype.splits Option.bind_splits)
qed

lemma delete_password_calls:
  assumes "delete_password B service account error w = Some (r, error', w')"
  shows "calls w' = calls w @ [Delete (key_query service account)]"
proof -
  obtain status k where
    cm: "itemDelete B (key_query service account) (keychain w) = (status, k)"
    by (cases "itemDelete B (key_query service account) (keychain w)")
  from assms cm delete_password_valid [OF assms] show ?thesis
    by (auto simp add: delete_password_def cf_defs Let_def query_defs cstring_c_str
          dest!: errorStatusToString_calls
          split: prod.splits option.splits if_splits Option.bind_splits)
qed

lemma find_password_calls:
  assumes "find_password B service password error w = Some (r, password', error', w')"
  shows "calls w' = calls w @ [CopyMatching (find_query service)]"
proof -
  obtain status result k where
    cm: "itemCopyMatching B (find_query service) (keychain w) = (status, result, k)"
    by (cases "itemCopyMatching B (find_query service) (keychain w)")
  from assms cm find_password_valid [OF assms] show ?thesis
    by (auto simp add: find_password_def cf_defs Let_def query_defs cstring_c_str
          dest!: errorStatusToString_calls
          split: prod.splits option.splits if_splits cftype.splits Option.bind_splits)
qed

lemma find_credentials_loop_calls:
  "find_credentials_loop B resultArray idx resultCount credentials w = Some (credentials', w') \<Longrightarrow>
   \<exists>rest. calls w' = calls w @ rest"
proof (induction B resultArray idx resultCount credentials w
       rule: find_credentials_loop.induct)
  case (1 B resultArray idx resultCount credentials w)
  show ?case
  proof (cases "idx < resultCount")
    case False
    with "1.prems" show ?thesis
      by (simp add: find_credentials_loop.simps [of _ _ idx])
  next
    case True
    from find_credentials_loop_step [OF True "1.prems"(1)] obtain item cred w1 where
      a: "0 \<le> idx \<and> nat idx < length resultArray" "resultArray ! nat idx = CFDictionary item"
         "getCredentialsForItem B item w = Some (cred, w1)"
         "find_credentials_loop B resultArray (idx + 1) resultCount (credentials @ [cred]) w1
            = Some (credentials', w')"
      by blast
    from getCredentialsForItem_query [OF a(3)] obtain q where
      "calls w1 = calls w @ [CopyMatching q]"
      by blast
    with "1.IH" [OF True a(1) a(2) a(3) refl a(4)] show ?thesis by auto
  qed
qed

lemma find_credentials_calls:
  assumes "find_credentials B service credentials error w = Some (r, credentials', error', w')"
  shows "\<exists>rest. calls w' = calls w @ CopyMatching (find_all_query service) # rest"
proof -
  obtain status result k where
    cm: "itemCopyMatching B (find_all_query service) (keychain w) = (status, result, k)"
    by (cases "itemCopyMatching B (find_all_query service) (keychain w)")
  from assms cm find_credentials_valid [OF assms] show ?thesis
    by (auto simp add: find_credentials_def cf_defs Let_def query_defs cstring_c_str
          dest!: errorStatusToString_calls find_credentials_loop_calls
          split: prod.splits option.splits if_splits cftype.splits Option.bind_splits)
qed

text \<open>
  C10: for every backend, each operation gives the same result for two services, and two
  accounts, that agree up to their first NUL; a string is cut at its first NUL; and the
  requests an operation has made when it returns carry the service and the account cut
  at the first NUL: the update of \<^verbatim>\<open>set_password\<close> and the insert that may follow it,
  both with the secret in full, the lookup of \<^verbatim>\<open>get_password\<close>, the deletion of
  \<^verbatim>\<open>delete_password\<close>, the lookup of \<^verbatim>\<open>find_password\<close>, and the first lookup of
  \<^verbatim>\<open>find_credentials\<close>.
\<close>

theorem keys_reach_backend_as_c_strings:
  "(cstring service = cstring service' \<and> cstring account = cstring account' \<longrightarrow>
      set_password B service account password error w
        = set_password B service' account' password error w \<and>
      get_password B service account password error w
        = get_password B service' account' password error w \<and>
      delete_password B service account error w = delete_password B service' account' error w \<and>
      find_password B service password error w = find_password B service' password error w \<and>
      find_credentials B service credentials error w
        = find_credentials B service' credentials error w) \<and>
   (NUL \<notin> set s \<longrightarrow> cstring (s @ NUL # t) = s) \<and>
   (set_password B service account password error w = Some (r, error', w') \<longrightarrow>
      (\<exists>rest.
         calls w' = calls w @
           Update [(kSecClass, kSecClassInternetPassword),
                   (kSecAttrAccount, CFString (cstring account)),
                   (kSecAttrServer, CFString (cstring service))]
                  [(kSecValueData, CFData password)] # rest \<and>
         (rest = [] \<or>
          rest = [Add [(kSecClass, kSecClassInternetPassword),
                       (kSecAttrServer, CFString (cstring service)),
                       (kSecAttrAccount, CFString (cstring account)),
                       (kSecValueData, CFData password)]]))) \<and>
   (get_password B service account password error w = Some (r2, password2, error2, w2) \<longrightarrow>
      calls w2 = calls w @
        [CopyMatching [(kSecClass, kSecClassInternetPassword),
                       (kSecAttrAccount, CFString (cstring account)),
                       (kSecAttrServer, CFString (cstring service)),
                       (kSecReturnData, kCFBooleanTrue),
                       (kSecMatchLimit, kSecMatchLimitOne)]]) \<and>
   (delete_password B service account error w = Some (r3, error3, w3) \<longrightarrow>
      calls w3 = calls w @
        [Delete [(kSecClass, kSecClassInternetPassword),
                 (kSecAttrAccount, CFString (cstring account)),
                 (kSecAttrServer, CFString (cstring service))]]) \<and>
   (find_password B service password error w = Some (r4, password4, error4, w4) \<longrightarrow>
      calls w4 = calls w @
        [CopyMatching [(kSecClass, kSecClassInternetPassword),
                       (kSecAttrServer, CFString (cstring service)),
                       (kSecReturnData, kCFBooleanTrue),
                       (kSecMatchLimit, kSecMatchLimitOne)]]) \<and>
   (find_credentials B service credentials error w = Some (r5, credentials5, error5, w5) \<longrightarrow>
      (\<exists>rest.
         calls w5 = calls w @
           CopyMatching [(kSecClass, kSecClassGenericPassword),
                         (kSecAttrService, CFString (cstring service)),
                         (kSecMatchLimit, kSecMatchLimitAll),
                         (kSecReturnRef, kCFBooleanTrue),
                         (kSecReturnAttributes, kCFBooleanTrue)] # rest))"
proof (intro conjI impI)
  assume "set_password B service account password error w = Some (r, error', w')"
  from set_password_calls [OF this]
  show "\<exists>rest.
         calls w' = calls w @
           Update [(kSecClass, kSecClassInternetPassword),
                   (kSecAttrAccount, CFString (cstring account)),
                   (kSecAttrServer, CFString (cstring service))]
                  [(kSecValueData, CFData password)] # rest \<and>
         (rest = [] \<or>
          rest = [Add [(kSecClass, kSecClassInternetPassword),
                       (kSecAttrServer, CFString (cstring service)),
                       (kSecAttrAccount, CFString (cstring account)),
                       (kSecValueData, CFData password)]])"
    by (simp add: query_defs)
next
  assume "NUL \<notin> set s"
  then show "cstring (s @ NUL # t) = s" by (rule cstring_stops_at_NUL)
next
  assume "get_password B service account password error w = Some (r2, password2, error2, w2)"
  from get_password_calls [OF this]
  show "calls w2 = calls w @
        [CopyMatching [(kSecClass, kSecClassInternetPassword),
                       (kSecAttrAccount, CFString (cstring account)),
                       (kSecAttrServer, CFString (cstring service)),
                       (kSecReturnData, kCFBooleanTrue),
                       (kSecMatchLimit, kSecMatchLimitOne)]]"
    by (simp add: query_defs)
next
  assume "delete_password B service account error w = Some (r3, error3, w3)"
  from delete_password_calls [OF this]
  show "calls w3 = calls w @
        [Delete [(kSecClass, kSecClassInternetPassword),
                 (kSecAttrAccount, CFString (cstring account)),
                 (kSecAttrServer, CFString (cstring service))]]"
    by (simp add: query_defs)
next
  assume "find_password B service password error w = Some (r4, password4, error4, w4)"
  from find_password_calls [OF this]
  show "calls w4 = calls w @
        [CopyMatching [(kSecClass, kSecClassInternetPassword),
                       (kSecAttrServer, CFString (cstring service)),
                       (kSecReturnData, kCFBooleanTrue),
                       (kSecMatchLimit, kSecMatchLimitOne)]]"
    by (simp add: query_defs)
next
  assume "find_credentials B service credentials error w = Some (r5, credentials5, error5, w5)"
  from find_credentials_calls [OF this]
  show "\<exists>rest.
         calls w5 = calls w @
           CopyMatching [(kSecClass, kSecClassGenericPassword),
                         (kSecAttrService, CFString (cstring service)),
                         (kSecMatchLimit, kSecMatchLimitAll),
                         (kSecReturnRef, kCFBooleanTrue),
                         (kSecReturnAttributes, kCFBooleanTrue)] # rest"
    by (simp add: query_defs)
qed (simp_all add: set_password_def AddPassword_def get_password_def delete_password_def
       find_password_def find_credentials_def CFStringCreateWithCString_def cstring_c_str
       cong: if_cong)

text \<open>
  Witness for C10: a service and an account with bytes behind a NUL, and a secret with a
  NUL in it, through each operation; every request names the service \<^verbatim>\<open>mail\<close> and the
  account \<^verbatim>\<open>alice\<close>.
\<close>

theorem keys_reach_backend_as_c_strings_witness:
  "cstring (''mail'' @ NUL # ''x'') = ''mail'' \<and>
   cstring (''alice'' @ NUL # ''z'') = ''alice'' \<and>
   get_password keychain_backend (''mail'' @ NUL # ''x'') (''alice'' @ NUL # ''z'') [] []
       (start sample_keychain)
     = get_password keychain_backend ''mail'' ''alice'' [] [] (start sample_keychain) \<and>
   (\<exists>error' w' rest.
      set_password keychain_backend (''mail'' @ NUL # ''x'') (''alice'' @ NUL # ''z'')
        (''p'' @ NUL # ''q'') [] (start [])
        = Some (SUCCESS, error', w') \<and>
      calls w' =
        Update [(kSecClass, kSecClassInternetPassword),
                (kSecAttrAccount, CFString ''alice''),
                (kSecAttrServer, CFString ''mail'')]
               [(kSecValueData, CFData (''p'' @ NUL # ''q''))] # rest) \<and>
   (\<exists>w2.
      get_password keychain_backend (''mail'' @ NUL # ''x'') (''alice'' @ NUL # ''z'') [] []
        (start sample_keychain)
        = Some (SUCCESS, [CHR ''p'', CHR 0x00, CHR 0xFF], [], w2) \<and>
      calls w2 =
        [CopyMatching [(kSecClass, kSecClassInternetPassword),
                       (kSecAttrAccount, CFString ''alice''),
                       (kSecAttrServer, CFString ''mail''),
                       (kSecReturnData, kCFBooleanTrue),
                       (kSecMatchLimit, kSecMatchLimitOne)]]) \<and>
   (\<exists>w3.
      delete_password keychain_backend (''mail'' @ NUL # ''x'') (''alice'' @ NUL # ''z'') []
        (start sample_keychain)
        = Some (SUCCESS, [], w3) \<and>
      calls w3 =
        [Delete [(kSecClass, kSecClassInternetPassword),
                 (kSecAttrAccount, CFString ''alice''),
                 (kSecAttrServer, CFString ''mail'')]]) \<and>
   (\<exists>w4.
      find_password keychain_backend (''mail'' @ NUL # ''x'') [] [] (start sample_keychain)
        = Some (SUCCESS, [CHR ''p'', CHR 0x00, CHR 0xFF], [], w4) \<and>
      calls w4 =
        [CopyMatching [(kSecClass, kSecClassInternetPassword),
                       (kSecAttrServer, CFString ''mail''),
                       (kSecReturnData, kCFBooleanTrue),
                       (kSecMatchLimit, kSecMatchLimitOne)]]) \<and>
   (\<exists>credentials' w5 rest.
      find_credentials keychain_backend (''mail'' @ NUL # ''x'') [] [] (start sample_keychain)
        = Some (SUCCESS, credentials', [], w5) \<and>
      calls w5 =
        CopyMatching [(kSecClass, kSecClassGenericPassword),
                      (kSecAttrService, CFString ''mail''),
                      (kSecMatchLimit, kSecMatchLimitAll),
                      (kSecReturnRef, kCFBooleanTrue),
                      (kSecReturnAttributes, kCFBooleanTrue)] # rest)"
proof -
  let ?service = "''mail'' @ NUL # ''x''"
  let ?account = "''alice'' @ NUL # ''z''"
  note T = keys_reach_backend_as_c_strings [where B = keychain_backend and
      service = ?service and service' = "''mail''" and
      account = ?account and account' = "''alice''"]
  have n: "NUL \<notin> set ''mail''" "NUL \<notin> set ''alice''" by (simp_all add: NUL_def)
  from T [where s = "''mail''" and t = "''x''", THEN conjunct2, THEN conjunct1, THEN mp, OF n(1)]
  have c1: "cstring ?service = ''mail''" .
  from T [where s = "''alice''" and t = "''z''", THEN conjunct2, THEN conjunct1, THEN mp, OF n(2)]
  have c2: "cstring ?account = ''alice''" .
  have c3: "cstring ''mail'' = ''mail''" "cstring ''alice'' = ''alice''"
    by (simp_all add: cstring_def NUL_def)
  from c1 c2 c3 have h: "cstring ?service = cstring ''mail'' \<and> cstring ?account = cstring ''alice''"
    by simp
  from T [where password = "[]" and error = "[]" and w = "start sample_keychain",
      THEN conjunct1, THEN mp, OF h]
  have g: "get_password keychain_backend ?service ?account [] [] (start sample_keychain)
           = get_password keychain_backend ''mail'' ''alice'' [] [] (start sample_keychain)"
    by simp
  have "map_option (\<lambda>(r, e, w). r)
          (set_password keychain_backend ?service ?account (''p'' @ NUL # ''q'') [] (start []))
        = Some SUCCESS"
    by code_simp
  then obtain e1 w1 where
    r1: "set_password keychain_backend ?service ?account (''p'' @ NUL # ''q'') [] (start [])
          = Some (SUCCESS, e1, w1)"
    by auto
  from T [THEN conjunct2, THEN conjunct2, THEN conjunct1, THEN mp, OF r1] c1 c2
  have l1: "\<exists>rest. calls w1 =
        Update [(kSecClass, kSecClassInternetPassword),
                (kSecAttrAccount, CFString ''alice''),
                (kSecAttrServer, CFString ''mail'')]
               [(kSecValueData, CFData (''p'' @ NUL # ''q''))] # rest"
    by (auto simp: start_def)
  have "map_option (\<lambda>(r, p, e, w). (r, p, e))
          (get_password keychain_backend ?service ?account [] [] (start sample_keychain))
        = Some (SUCCESS, [CHR ''p'', CHR 0x00, CHR 0xFF], [])"
    by code_simp
  then obtain w2 where
    r2: "get_password keychain_backend ?service ?account [] [] (start sample_keychain)
          = Some (SUCCESS, [CHR ''p'', CHR 0x00, CHR 0xFF], [], w2)"
    by auto
  from T [THEN conjunct2, THEN conjunct2, THEN conjunct2, THEN conjunct1, THEN mp, OF r2] c1 c2
  have l2: "calls w2 =
        [CopyMatching [(kSecClass, kSecClassInternetPassword),
                       (kSecAttrAccount, CFString ''alice''),
                       (kSecAttrServer, CFString ''mail''),
                       (kSecReturnData, kCFBooleanTrue),
                       (kSecMatchLimit, kSecMatchLimitOne)]]"
    by (simp add: start_def)
  have "map_option (\<lambda>(r, e, w). (r, e))
          (delete_password keychain_backend ?service ?account [] (start sample_keychain))
        = Some (SUCCESS, [])"
    by code_simp
  then obtain w3 where
    r3: "delete_password keychain_backend ?service ?account [] (start sample_keychain)
          = Some (SUCCESS, [], w3)"
    by auto
  from T [THEN conjunct2, THEN conjunct2, THEN conjunct2, THEN conjunct2, THEN conjunct1,
      THEN mp, OF r3] c1 c2
  have l3: "calls w3 =
        [Delete [(kSecClass, kSecClassInternetPassword),
                 (kSecAttrAccount, CFString ''alice''),
                 (kSecAttrServer, CFString ''mail'')]]"
    by (simp add: start_def)
  have "map_option (\<lambda>(r, p, e, w). (r, p, e))
          (find_password keychain_backend ?service [] [] (start sample_keychain))
        = Some (SUCCESS, [CHR ''p'', CHR 0x00, CHR 0xFF], [])"
    by code_simp
  then obtain w4 where
    r4: "find_password keychain_backend ?service [] [] (start sample_keychain)
          = Some (SUCCESS, [CHR ''p'', CHR 0x00, CHR 0xFF], [], w4)"
    by auto
  from T [THEN conjunct2, THEN conjunct2, THEN conjunct2, THEN conjunct2, THEN conjunct2,
      THEN conjunct1, THEN mp, OF r4] c1
  have l4: "calls w4 =
        [CopyMatching [(kSecClass, kSecClassInternetPassword),
                       (kSecAttrServer, CFString ''mail''),
                       (kSecReturnData, kCFBooleanTrue),
                       (kSecMatchLimit, kSecMatchLimitOne)]]"
    by (simp add: start_def)
  have "map_option (\<lambda>(r, c, e, w). (r, e))
          (find_credentials keychain_backend ?service [] [] (start sample_keychain))
        = Some (SUCCESS, [])"
    by code_simp
  then obtain c5 w5 where
    r5: "find_credentials keychain_backend ?service [] [] (start sample_keychain)
          = Some (SUCCESS, c5, [], w5)"
    by auto
  from T [THEN conjunct2, THEN conjunct2, THEN conjunct2, THEN conjunct2, THEN conjunct2,
      THEN conjunct2, THEN mp, OF r5] c1
  have l5: "\<exists>rest. calls w5 =
        CopyMatching [(kSecClass, kSecClassGenericPassword),
                      (kSecAttrService, CFString ''mail''),
                      (kSecMatchLimit, kSecMatchLimitAll),
                      (kSecReturnRef, kCFBooleanTrue),
                      (kSecReturnAttributes, kCFBooleanTrue)] # rest"
    by (simp add: start_def)
  from c1 c2 g r1 l1 r2 l2 r3 l3 r4 l4 r5 l5 show ?thesis by blast
qed

end
